theory Spec2Isabelle
  imports Complex_Main "HOL-Library.AList" "HOL-Library.Sublist"
begin

section \<open>Values of the JavaScript run time\<close>

text \<open>
  Argument values, response bodies and validated values are JSON values. A JavaScript
  \<open>undefined\<close> is \<open>None\<close> of \<open>json option\<close>. Numbers are rationals: every finite
  double is one, and the comparisons of the source agree with those of the rationals.
  Strings are byte strings (UTF-8). An object is the list of its own entries in insertion
  order; property names that are array indices, which an engine enumerates first, are
  outside the model. Reading a property of an object can also give a member inherited from
  \<open>Object.prototype\<close>: \<open>JFunction n\<close> is the function inherited under the name \<open>n\<close>.
\<close>

datatype json =
    JNull
  | JBool bool
  | JNum rat
  | JStr string
  | JArr "json list"
  | JObj "(string \<times> json) list"
  | JFunction string

text \<open>
  Built-ins of the engine that are not modelled here are parameters of the model:
  \<open>Number.prototype.toString\<close> outside the safe integers, \<open>JSON.stringify\<close>,
  \<open>new RegExp(p).test(s)\<close> (\<open>None\<close> when \<open>p\<close> does not compile and the constructor throws),
  and \<open>Function.prototype.toString\<close> on the inherited function of a given name.
\<close>

record js_runtime =
  numberToString :: "rat \<Rightarrow> string"
  stringify :: "json \<Rightarrow> string"
  regexTest :: "string \<Rightarrow> string \<Rightarrow> bool option"
  functionToString :: "string \<Rightarrow> string"

text \<open>The digit of a number below 16; every use below passes such a number.\<close>

definition digit_char :: "nat \<Rightarrow> char" where
  "digit_char n = ''0123456789ABCDEF'' ! n"

fun digits :: "nat \<Rightarrow> string" where
  "digits n = (if n < 10 then [digit_char n] else digits (n div 10) @ [digit_char (n mod 10)])"

declare digits.simps [simp del]

definition int_toString :: "int \<Rightarrow> string" where
  "int_toString i = (if i < 0 then CHR ''-'' # digits (nat (- i)) else digits (nat i))"

definition isInteger :: "rat \<Rightarrow> bool" where
  "isInteger r = (of_int \<lfloor>r\<rfloor> = r)"

text \<open>\<open>String(n)\<close> for a number: the decimal digits when \<open>n\<close> is a safe integer.\<close>

definition number_String :: "js_runtime \<Rightarrow> rat \<Rightarrow> string" where
  "number_String rt r =
     (if isInteger r \<and> \<bar>r\<bar> \<le> 9007199254740991 then int_toString \<lfloor>r\<rfloor> else numberToString rt r)"

fun join :: "string \<Rightarrow> string list \<Rightarrow> string" where
  "join sep [] = []"
| "join sep [x] = x"
| "join sep (x # y # ys) = x @ sep @ join sep (y # ys)"

text \<open>
  \<open>String(value)\<close>. An array is its elements joined by commas, \<open>null\<close> elements as the
  empty string; an object is \<open>[object Object]\<close>.
\<close>

fun js_String :: "js_runtime \<Rightarrow> json \<Rightarrow> string" where
  "js_String rt JNull = ''null''"
| "js_String rt (JBool b) = (if b then ''true'' else ''false'')"
| "js_String rt (JNum r) = number_String rt r"
| "js_String rt (JStr s) = s"
| "js_String rt (JArr xs) = join '','' (map (\<lambda>x. if x = JNull then [] else js_String rt x) xs)"
| "js_String rt (JObj kvs) = ''[object Object]''"
| "js_String rt (JFunction n) = functionToString rt n"

text \<open>
  The names every plain object inherits from \<open>Object.prototype\<close>. \<open>obj[name]\<close> is the own
  entry when there is one; else, under an inherited name, the inherited function, or the
  prototype itself (an object with no enumerable entry) under \<open>__proto__\<close>; else
  \<open>undefined\<close>. \<open>name in obj\<close> holds exactly when \<open>obj[name]\<close> is not \<open>undefined\<close>, since
  no own entry of a JSON object is \<open>undefined\<close>.
\<close>

definition inherited_names :: "string list" where
  "inherited_names =
     [''constructor'', ''__defineGetter__'', ''__defineSetter__'', ''hasOwnProperty'',
      ''__lookupGetter__'', ''__lookupSetter__'', ''isPrototypeOf'', ''propertyIsEnumerable'',
      ''toString'', ''valueOf'', ''__proto__'', ''toLocaleString'']"

definition inherited_value :: "string \<Rightarrow> json" where
  "inherited_value n = (if n = ''__proto__'' then JObj [] else JFunction n)"

definition property :: "(string \<rightharpoonup> json) \<Rightarrow> string \<Rightarrow> json option" where
  "property own n =
     (case own n of
        Some v \<Rightarrow> Some v
      | None \<Rightarrow> if n \<in> set inherited_names then Some (inherited_value n) else None)"

text \<open>
  \<open>obj[name] = v\<close> on a plain object: the own entry is set, in place when the name is
  there and at the end when it is not; under \<open>__proto__\<close> the assignment goes to the
  inherited setter and the own entries stay as they are.
\<close>

definition assign :: "string \<Rightarrow> json \<Rightarrow> (string \<times> json) list \<Rightarrow> (string \<times> json) list" where
  "assign n v obj = (if n = ''__proto__'' then obj else AList.update n v obj)"

text \<open>
  The number of UTF-16 code units of a string, which is its \<open>length\<close> in JavaScript, read
  off the UTF-8 bytes: a continuation byte adds nothing, the first byte of a four-byte
  sequence stands for a surrogate pair, every other byte for one unit.
\<close>

definition utf16_units :: "char \<Rightarrow> nat" where
  "utf16_units c =
     (if 128 \<le> (of_char c :: nat) \<and> (of_char c :: nat) < 192 then 0
      else if 240 \<le> (of_char c :: nat) then 2
      else 1)"

definition utf16_length :: "string \<Rightarrow> nat" where
  "utf16_length s = sum_list (map utf16_units s)"

text \<open>
  \<open>encodeURIComponent\<close> on the UTF-8 bytes of a string: the unreserved characters stay,
  every other byte becomes \<open>%XX\<close>. (A lone surrogate, on which the built-in throws, has
  no UTF-8 form.)
\<close>

definition unreserved :: "char \<Rightarrow> bool" where
  "unreserved c =
     (c \<in> set (''ABCDEFGHIJKLMNOPQRSTUVWXYZabcdefghijklmnopqrstuvwxyz0123456789-_.!~*()'' @ [CHR 0x27]))"

definition encode_byte :: "char \<Rightarrow> string" where
  "encode_byte c =
     (if unreserved c then [c]
      else [CHR ''%'', digit_char (of_char c div 16), digit_char (of_char c mod 16)])"

definition encodeURIComponent :: "string \<Rightarrow> string" where
  "encodeURIComponent s = concat (map encode_byte s)"

text \<open>
  \<open>toLowerCase\<close> on the ASCII letters; no character outside ASCII lowers to a letter of
  the one word the source compares with.
\<close>

definition lower_char :: "char \<Rightarrow> char" where
  "lower_char c =
     (case map_of (zip ''ABCDEFGHIJKLMNOPQRSTUVWXYZ'' ''abcdefghijklmnopqrstuvwxyz'') c of
        None \<Rightarrow> c | Some l \<Rightarrow> l)"

definition toLowerCase :: "string \<Rightarrow> string" where
  "toLowerCase s = map lower_char s"

text \<open>
  \<open>s.replace(pat, rep)\<close> with a string pattern replaces the first occurrence only. The
  replacement of the source is an output of \<open>encodeURIComponent\<close>, which holds no \<open>$\<close>,
  so no replacement pattern is expanded.
\<close>

fun replace_first :: "string \<Rightarrow> string \<Rightarrow> string \<Rightarrow> string" where
  "replace_first [] pat rep = (if pat = [] then rep else [])"
| "replace_first (c # cs) pat rep =
     (if prefix pat (c # cs) then rep @ drop (length pat) (c # cs)
      else c # replace_first cs pat rep)"

text \<open>
  \<open>s.match(/{[^}]+}/g)\<close>: the matches from left to right. At an opening brace the class
  \<open>[^}]+\<close> takes the longest run without a closing brace; the match needs the run to be
  non-empty and a closing brace to follow, else the scan moves on by one character.
\<close>

function match_tokens :: "string \<Rightarrow> string list" where
  "match_tokens [] = []"
| "match_tokens (c # cs) =
     (if c = CHR ''{'' then
        (let run = takeWhile (\<lambda>x. x \<noteq> CHR ''}'') cs;
             rest = dropWhile (\<lambda>x. x \<noteq> CHR ''}'') cs
         in if run \<noteq> [] \<and> rest \<noteq> []
            then (CHR ''{'' # run @ ''}'') # match_tokens (tl rest)
            else match_tokens cs)
      else match_tokens cs)"
  by pat_completeness auto
termination
proof (relation "measure length")
  show "wf (measure length)" by simp
next
  fix c :: char and cs run rest
  assume "rest = dropWhile (\<lambda>x. x \<noteq> CHR ''}'') cs"
  then have "length rest \<le> length cs"
    by (simp add: length_dropWhile_le)
  then have "length (tl rest) \<le> length cs"
    by simp
  then show "(tl rest, c # cs) \<in> measure length" by simp
qed simp_all

section \<open>TTL cache\<close>

text \<open>
  The class \<open>Cache<T>\<close>: a \<open>Map<string, CacheEntry<T>>\<close> and a default time to live.
  Times are the integer milliseconds of \<open>Date.now()\<close>; the reading of the clock is an
  argument of every operation that reads it.
\<close>

record 'a cache_entry =
  entry_data :: 'a
  entry_timestamp :: int
  entry_ttl :: int

record 'a cache =
  entries :: "string \<rightharpoonup> 'a cache_entry"
  defaultTTL :: int

text \<open>\<open>new Cache(defaultTTL = 300000)\<close>: the parameter default applies when no argument is given.\<close>

definition new_cache :: "int option \<Rightarrow> 'a cache" where
  "new_cache d = \<lparr>entries = Map.empty, defaultTTL = (case d of None \<Rightarrow> 300000 | Some t \<Rightarrow> t)\<rparr>"

text \<open>
  \<open>ttl || this.defaultTTL\<close>: the operator \<open>||\<close> takes its right operand when the left
  one is falsy, that is when \<open>ttl\<close> is \<open>undefined\<close> or \<open>0\<close>.
\<close>

definition effective_ttl :: "int option \<Rightarrow> int \<Rightarrow> int" where
  "effective_ttl ttl dflt = (case ttl of None \<Rightarrow> dflt | Some t \<Rightarrow> if t = 0 then dflt else t)"

definition cache_set :: "string \<Rightarrow> 'a \<Rightarrow> int option \<Rightarrow> int \<Rightarrow> 'a cache \<Rightarrow> 'a cache" where
  "cache_set key d ttl now c =
     c\<lparr>entries := (entries c)(key \<mapsto>
        \<lparr>entry_data = d, entry_timestamp = now, entry_ttl = effective_ttl ttl (defaultTTL c)\<rparr>)\<rparr>"

definition isExpired :: "int \<Rightarrow> 'a cache_entry \<Rightarrow> bool" where
  "isExpired now e = (now - entry_timestamp e > entry_ttl e)"

text \<open>\<open>get\<close> returns the data (\<open>None\<close> is JavaScript's \<open>null\<close>) and the cache it leaves.\<close>

definition cache_get :: "string \<Rightarrow> int \<Rightarrow> 'a cache \<Rightarrow> 'a option \<times> 'a cache" where
  "cache_get key now c =
     (case entries c key of
        None \<Rightarrow> (None, c)
      | Some e \<Rightarrow>
          if isExpired now e then (None, c\<lparr>entries := (entries c)(key := None)\<rparr>)
          else (Some (entry_data e), c))"

definition cache_has :: "string \<Rightarrow> int \<Rightarrow> 'a cache \<Rightarrow> bool \<times> 'a cache" where
  "cache_has key now c = (case cache_get key now c of (r, c') \<Rightarrow> (r \<noteq> None, c'))"

definition cache_delete :: "string \<Rightarrow> 'a cache \<Rightarrow> bool \<times> 'a cache" where
  "cache_delete key c = (entries c key \<noteq> None, c\<lparr>entries := (entries c)(key := None)\<rparr>)"

definition cache_clear :: "'a cache \<Rightarrow> 'a cache" where
  "cache_clear c = c\<lparr>entries := Map.empty\<rparr>"

definition cleanup :: "int \<Rightarrow> 'a cache \<Rightarrow> 'a cache" where
  "cleanup now c =
     c\<lparr>entries := (\<lambda>k. case entries c k of
                         None \<Rightarrow> None
                       | Some e \<Rightarrow> if isExpired now e then None else Some e)\<rparr>"

section \<open>Resilient HTTP client\<close>

text \<open>
  The fields of an \<open>AxiosResponse\<close> that the code reads; \<open>ApiResponse\<close> has the same four.
\<close>

record api_response =
  status :: int
  statusText :: string
  response_headers :: "(string \<times> json) list"
  response_data :: json

text \<open>What goes on the wire, and the \<open>AxiosRequestConfig\<close> that adds \<open>validateStatus\<close>.\<close>

record http_request =
  request_method :: string
  request_url :: string
  request_params :: "(string \<times> json) list"
  request_headers :: "(string \<times> json) list"
  request_data :: "json option"

record request_config = http_request +
  validateStatus :: "(int \<Rightarrow> bool) option"

text \<open>
  The server and the network, as the client sees them: the reply to a request, given how
  many requests were sent before it, and the milliseconds it took. \<open>NoResponse\<close> is a
  network error or a timeout.
\<close>

datatype reply = NoResponse | Responds api_response

type_synonym backend = "http_request \<Rightarrow> nat \<Rightarrow> reply \<times> int"

text \<open>
  The effects of a call, in the order they happen: requests sent, waits between attempts,
  and the reads and writes of the cache.
\<close>

datatype event = Sent http_request | Waited int | CacheGet string | CacheSet string

record 'a world =
  store :: "'a cache"
  clock :: int
  trace :: "event list"

definition is_sent :: "event \<Rightarrow> bool" where
  "is_sent e = (case e of Sent r \<Rightarrow> True | _ \<Rightarrow> False)"

definition sent_count :: "'a world \<Rightarrow> nat" where
  "sent_count w = length (filter is_sent (trace w))"

text \<open>The error of a rejected axios call: \<open>error.response\<close> is set when a response came.\<close>

datatype axios_error = AxiosError (error_response: "api_response option")

text \<open>What \<open>request\<close> throws: the caught error, or \<open>lastError\<close> while it is still \<open>undefined\<close>.\<close>

datatype thrown = Thrown axios_error | ThrownUndefined

text \<open>
  \<open>HttpClient\<close>, with the two fields its loop reads. \<open>maxRetries\<close> counts retries and is a
  natural number here (the configuration parses it with \<open>parseInt\<close>, 3 by default); the
  loop is then entered and its last turn returns or throws, so the \<open>throw lastError\<close> after
  the loop is not reached. The product \<open>retryDelay * Math.pow(2, attempt)\<close> is computed on
  doubles and is the exact integer as long as it stays below \<open>2^1024\<close>.
\<close>

record http_client =
  maxRetries :: nat
  retryDelay :: int

text \<open>
  axios settles a response by \<open>validateStatus\<close>: without one in the request, a status in
  \<open>[200,300)\<close> resolves and any other rejects with the response attached.
\<close>

definition status_accepted :: "(int \<Rightarrow> bool) option \<Rightarrow> int \<Rightarrow> bool" where
  "status_accepted vs s = (case vs of None \<Rightarrow> 200 \<le> s \<and> s < 300 | Some f \<Rightarrow> f s)"

definition settle :: "(int \<Rightarrow> bool) option \<Rightarrow> reply \<Rightarrow> axios_error + api_response" where
  "settle vs rep =
     (case rep of
        NoResponse \<Rightarrow> Inl (AxiosError None)
      | Responds r \<Rightarrow>
          if status_accepted vs (status r) then Inr r else Inl (AxiosError (Some r)))"

text \<open>\<open>this.client.request(config)\<close>: one request on the wire, logged, and settled.\<close>

definition client_request ::
  "backend \<Rightarrow> request_config \<Rightarrow> 'a world \<Rightarrow> (axios_error + api_response) \<times> 'a world" where
  "client_request be cfg w =
     (let req = http_request.truncate cfg;
          (rep, dt) = be req (sent_count w)
      in (settle (validateStatus cfg) rep,
          w\<lparr>clock := clock w + dt, trace := trace w @ [Sent req]\<rparr>))"

text \<open>
  \<open>this.delay(ms)\<close> awaits \<open>setTimeout(resolve, ms)\<close>. The timer takes a delay below 1 or
  above \<open>2^31 - 1\<close> as 1 millisecond. The event records the argument, the clock advances by
  the time the timer is set to; a timer fires no earlier than that, and here it fires then.
\<close>

definition timer_delay :: "int \<Rightarrow> int" where
  "timer_delay ms = (if ms < 1 \<or> ms > 2147483647 then 1 else ms)"

definition delay :: "int \<Rightarrow> 'a world \<Rightarrow> 'a world" where
  "delay ms w = w\<lparr>clock := clock w + timer_delay ms, trace := trace w @ [Waited ms]\<rparr>"

definition shouldRetry :: "http_client \<Rightarrow> axios_error \<Rightarrow> nat \<Rightarrow> bool" where
  "shouldRetry hc err attempt =
     (if attempt \<ge> maxRetries hc then False
      else case error_response err of
             None \<Rightarrow> True
           | Some r \<Rightarrow> status r \<ge> 500 \<and> status r < 600)"

text \<open>The \<open>for\<close> loop of \<open>request\<close>, from \<open>attempt\<close> on, and the \<open>throw lastError\<close> after it.\<close>

function request_loop ::
  "http_client \<Rightarrow> backend \<Rightarrow> request_config \<Rightarrow> nat \<Rightarrow> axios_error option \<Rightarrow> 'a world
     \<Rightarrow> (thrown + api_response) \<times> 'a world" where
  "request_loop hc be cfg attempt lastError w =
     (if attempt \<le> maxRetries hc then
        (case client_request be cfg w of
           (Inr r, w1) \<Rightarrow> (Inr r, w1)
         | (Inl err, w1) \<Rightarrow>
             if \<not> shouldRetry hc err attempt then (Inl (Thrown err), w1)
             else request_loop hc be cfg (attempt + 1) (Some err)
                    (delay (retryDelay hc * 2 ^ attempt) w1))
      else (case lastError of
              None \<Rightarrow> (Inl ThrownUndefined, w)
            | Some err \<Rightarrow> (Inl (Thrown err), w)))"
  by pat_completeness auto
termination
  by (relation "measure (\<lambda>(hc, be, cfg, attempt, lastError, w). Suc (maxRetries hc) - attempt)") auto

declare request_loop.simps [simp del]

definition request ::
  "http_client \<Rightarrow> backend \<Rightarrow> request_config \<Rightarrow> 'a world \<Rightarrow> (thrown + api_response) \<times> 'a world" where
  "request hc be cfg w = request_loop hc be cfg 0 None w"

section \<open>Operation executor\<close>

datatype location = Path | Query | Header | Body | Cookie

text \<open>
  \<open>ToolParameter\<close> and \<open>ApiTool\<close>. The location is declared as one of the first four; the
  loader copies the \<open>in\<close> of the document, which can also be \<open>cookie\<close>. The fields
  \<open>schema\<close>, \<open>security\<close>, \<open>requestBody\<close> and \<open>responses\<close> are carried and never read by
  the executor; they are left out.
\<close>

record tool_parameter =
  param_name :: string
  param_description :: "string option"
  param_required :: bool
  param_type :: string
  param_location :: location

record api_tool =
  tool_name :: string
  tool_description :: string
  tool_method :: string
  tool_path :: string
  tool_parameters :: "tool_parameter list"

record config =
  petstoreApiBase :: string
  openApiSpecUrl :: string
  cacheTTL :: int
  config_maxRetries :: nat
  config_retryDelay :: int
  requestTimeout :: int

definition new_http_client :: "config \<Rightarrow> http_client" where
  "new_http_client cfg = \<lparr>maxRetries = config_maxRetries cfg, retryDelay = config_retryDelay cfg\<rparr>"

type_synonym args = "string \<rightharpoonup> json"

record request_parts =
  url :: string
  queryParams :: "(string \<times> json) list"
  headers :: "(string \<times> json) list"
  body :: "json option"

datatype failure =
    MissingRequiredParameters "string list"
  | UnreplacedPathParameters "string list"
  | RequestFailed thrown

datatype execute_error = FailedToExecute string failure

text \<open>The messages of the thrown errors, where they do not print a caught error.\<close>

fun failure_message :: "failure \<Rightarrow> string option" where
  "failure_message (MissingRequiredParameters ns) =
     Some (''Missing required parameters: '' @ join '', '' ns)"
| "failure_message (UnreplacedPathParameters ts) =
     Some (''Unreplaced path parameters: '' @ join '', '' ts)"
| "failure_message (RequestFailed t) = None"

text \<open>The message of the error that \<open>execute\<close> rethrows from its \<open>catch\<close>.\<close>

fun execute_error_message :: "execute_error \<Rightarrow> string option" where
  "execute_error_message (FailedToExecute name cause) =
     (case failure_message cause of
        None \<Rightarrow> None
      | Some m \<Rightarrow> Some (''Failed to execute '' @ name @ '': '' @ m))"

text \<open>
  The argument object holds the own entries \<open>as\<close>; the source reads it with
  \<open>args[p.name]\<close>, which is \<open>property as (param_name p)\<close>.
\<close>

definition missingParams :: "api_tool \<Rightarrow> args \<Rightarrow> string list" where
  "missingParams tool as =
     map param_name
       (filter (\<lambda>p. param_required p \<and> property as (param_name p) = None)
          (tool_parameters tool))"

text \<open>The body of the \<open>forEach\<close> over the parameters: one parameter, on the parts so far.\<close>

definition processParam ::
  "js_runtime \<Rightarrow> args \<Rightarrow> tool_parameter \<Rightarrow> request_parts \<Rightarrow> request_parts" where
  "processParam rt as param st =
     (case property as (param_name param) of
        None \<Rightarrow> st
      | Some v \<Rightarrow>
          (case param_location param of
             Path \<Rightarrow>
               st\<lparr>url := replace_first (url st) (''{'' @ param_name param @ ''}'')
                             (encodeURIComponent (js_String rt v))\<rparr>
           | Query \<Rightarrow> st\<lparr>queryParams := assign (param_name param) v (queryParams st)\<rparr>
           | Header \<Rightarrow> st\<lparr>headers := assign (param_name param) v (headers st)\<rparr>
           | Body \<Rightarrow> st\<lparr>body := Some v\<rparr>
           | Cookie \<Rightarrow> st))"

definition buildRequest ::
  "js_runtime \<Rightarrow> config \<Rightarrow> api_tool \<Rightarrow> args \<Rightarrow> failure + request_parts" where
  "buildRequest rt cfg tool as =
     (let init = \<lparr>url = petstoreApiBase cfg @ ''/api/v3'' @ tool_path tool,
                  queryParams = [],
                  headers = [(''Accept'', JStr ''application/json''),
                             (''Content-Type'', JStr ''application/json'')],
                  body = None\<rparr>;
          missing = missingParams tool as
      in if length missing > 0 then Inl (MissingRequiredParameters missing)
         else
           (let st = fold (processParam rt as) (tool_parameters tool) init;
                unreplacedParams = match_tokens (url st)
            in if unreplacedParams \<noteq> [] then Inl (UnreplacedPathParameters unreplacedParams)
               else Inr st))"

definition relevantArgs :: "api_tool \<Rightarrow> args \<Rightarrow> (string \<times> json) list" where
  "relevantArgs tool as =
     fold (\<lambda>param acc. case property as (param_name param) of
                          None \<Rightarrow> acc
                        | Some v \<Rightarrow> assign (param_name param) v acc)
       (filter (\<lambda>p. param_location p \<noteq> Header \<or> toLowerCase (param_name p) = ''authorization'')
          (tool_parameters tool))
       []"

definition buildCacheKey :: "js_runtime \<Rightarrow> api_tool \<Rightarrow> args \<Rightarrow> string option" where
  "buildCacheKey rt tool as =
     (if tool_method tool \<noteq> ''get'' then None
      else Some (tool_name tool @ '':'' @ stringify rt (JObj (relevantArgs tool as))))"

definition world_cache_get :: "string \<Rightarrow> 'a world \<Rightarrow> 'a option \<times> 'a world" where
  "world_cache_get key w =
     (case cache_get key (clock w) (store w) of
        (r, c) \<Rightarrow> (r, w\<lparr>store := c, trace := trace w @ [CacheGet key]\<rparr>))"

definition world_cache_set :: "string \<Rightarrow> 'a \<Rightarrow> 'a world \<Rightarrow> 'a world" where
  "world_cache_set key d w =
     w\<lparr>store := cache_set key d None (clock w) (store w), trace := trace w @ [CacheSet key]\<rparr>"

text \<open>A string or \<open>null\<close> in a condition: \<open>null\<close> and the empty string are falsy.\<close>

definition truthy_key :: "string option \<Rightarrow> bool" where
  "truthy_key k = (case k of None \<Rightarrow> False | Some s \<Rightarrow> s \<noteq> [])"

definition cache_lookup ::
  "api_tool \<Rightarrow> string option \<Rightarrow> api_response world \<Rightarrow> api_response option \<times> api_response world" where
  "cache_lookup tool cacheKey w =
     (case cacheKey of
        None \<Rightarrow> (None, w)
      | Some key \<Rightarrow>
          if tool_method tool = ''get'' \<and> truthy_key cacheKey then world_cache_get key w
          else (None, w))"

definition cache_store ::
  "api_tool \<Rightarrow> string option \<Rightarrow> api_response \<Rightarrow> api_response world \<Rightarrow> api_response world" where
  "cache_store tool cacheKey response w =
     (case cacheKey of
        None \<Rightarrow> w
      | Some key \<Rightarrow>
          if tool_method tool = ''get'' \<and> status response \<ge> 200 \<and> status response < 300
             \<and> truthy_key cacheKey
          then world_cache_set key response w
          else w)"

text \<open>The request configuration that \<open>execute\<close> hands to the client.\<close>

definition dispatch_config :: "api_tool \<Rightarrow> request_parts \<Rightarrow> request_config" where
  "dispatch_config tool parts =
     \<lparr>request_method = tool_method tool,
      request_url = url parts,
      request_params = queryParams parts,
      request_headers = headers parts,
      request_data = body parts,
      validateStatus = Some (\<lambda>s. True)\<rparr>"

definition execute ::
  "js_runtime \<Rightarrow> config \<Rightarrow> http_client \<Rightarrow> backend \<Rightarrow> api_tool \<Rightarrow> args \<Rightarrow> api_response world
     \<Rightarrow> (execute_error + api_response) \<times> api_response world" where
  "execute rt cfg hc be tool as w =
     (let cacheKey = buildCacheKey rt tool as
      in case cache_lookup tool cacheKey w of
           (Some cached, w1) \<Rightarrow> (Inr cached, w1)
         | (None, w1) \<Rightarrow>
             (case buildRequest rt cfg tool as of
                Inl cause \<Rightarrow> (Inl (FailedToExecute (tool_name tool) cause), w1)
              | Inr parts \<Rightarrow>
                  (case request hc be (dispatch_config tool parts) w1 of
                     (Inl err, w2) \<Rightarrow>
                       (Inl (FailedToExecute (tool_name tool) (RequestFailed err)), w2)
                   | (Inr response, w2) \<Rightarrow>
                       (Inr response, cache_store tool cacheKey response w2))))"

section \<open>Schema validator\<close>

text \<open>
  \<open>OpenAPIV3.SchemaObject | OpenAPIV3.ReferenceObject\<close>, with the fields the validator
  reads. \<open>schema_required\<close> is the schema's own \<open>required\<close> member (the names of the
  required properties); \<open>additionalProperties\<close> is a boolean or a schema.
\<close>

record schema_fields =
  schema_type :: "string option"
  nullable :: "bool option"
  schema_required :: "string list option"
  schema_enum :: "json list option"
  pattern :: "string option"
  minLength :: "int option"
  maxLength :: "int option"
  minimum :: "rat option"
  maximum :: "rat option"
  exclusiveMinimum :: "bool option"
  exclusiveMaximum :: "bool option"
  minItems :: "int option"
  maxItems :: "int option"

datatype schema =
    ReferenceObject string
  | SchemaObject schema_fields "schema option" "(string \<times> schema) list option"
      "(bool + schema) option"

text \<open>
  The errors \<open>validate\<close> throws, one constructor for each message of the source, with the
  values the message prints. \<open>InvalidRegExp\<close> is the \<open>SyntaxError\<close> of \<open>new RegExp\<close>.
\<close>

datatype validation_error =
    IsRequired string
  | MustBeString string
  | MustBeNumber string
  | MustBeBoolean string
  | MustBeArray string
  | MustBeObject string
  | MustBeOneOf string "json list"
  | PatternMismatch string string
  | InvalidRegExp string
  | TooShort string int
  | TooLong string int
  | BelowMinimum string bool rat
  | AboveMaximum string bool rat
  | MustBeInteger string
  | TooFewItems string int
  | TooManyItems string int
  | PropertyRequired string string
  | UnexpectedProperties string "string list"

fun validation_message :: "js_runtime \<Rightarrow> validation_error \<Rightarrow> string option" where
  "validation_message rt (IsRequired p) = Some (''Parameter \"'' @ p @ ''\" is required'')"
| "validation_message rt (MustBeString p) = Some (''Parameter \"'' @ p @ ''\" must be a string'')"
| "validation_message rt (MustBeNumber p) = Some (''Parameter \"'' @ p @ ''\" must be a number'')"
| "validation_message rt (MustBeBoolean p) = Some (''Parameter \"'' @ p @ ''\" must be a boolean'')"
| "validation_message rt (MustBeArray p) = Some (''Parameter \"'' @ p @ ''\" must be an array'')"
| "validation_message rt (MustBeObject p) = Some (''Parameter \"'' @ p @ ''\" must be an object'')"
| "validation_message rt (MustBeOneOf p vs) =
     Some (''Parameter \"'' @ p @ ''\" must be one of: ''
           @ join '', '' (map (\<lambda>x. if x = JNull then [] else js_String rt x) vs))"
| "validation_message rt (PatternMismatch p pat) =
     Some (''Parameter \"'' @ p @ ''\" does not match pattern: '' @ pat)"
| "validation_message rt (InvalidRegExp pat) = None"
| "validation_message rt (TooShort p n) =
     Some (''Parameter \"'' @ p @ ''\" must be at least '' @ int_toString n @ '' characters long'')"
| "validation_message rt (TooLong p n) =
     Some (''Parameter \"'' @ p @ ''\" must be at most '' @ int_toString n @ '' characters long'')"
| "validation_message rt (BelowMinimum p excl m) =
     Some (''Parameter \"'' @ p @ ''\" must be ''
           @ (if excl then ''greater than'' else ''at least'') @ '' '' @ number_String rt m)"
| "validation_message rt (AboveMaximum p excl m) =
     Some (''Parameter \"'' @ p @ ''\" must be ''
           @ (if excl then ''less than'' else ''at most'') @ '' '' @ number_String rt m)"
| "validation_message rt (MustBeInteger p) = Some (''Parameter \"'' @ p @ ''\" must be an integer'')"
| "validation_message rt (TooFewItems p n) =
     Some (''Parameter \"'' @ p @ ''\" must have at least '' @ int_toString n @ '' items'')"
| "validation_message rt (TooManyItems p n) =
     Some (''Parameter \"'' @ p @ ''\" must have at most '' @ int_toString n @ '' items'')"
| "validation_message rt (PropertyRequired q p) =
     Some (''Property \"'' @ q @ ''\" is required in \"'' @ p @ ''\"'')"
| "validation_message rt (UnexpectedProperties p ks) =
     Some (''Unexpected properties in \"'' @ p @ ''\": '' @ join '', '' ks)"

text \<open>
  \<open>validateString\<close>: the checks in the order of the source, the first failing one throws.
  \<open>if (schema.pattern)\<close> skips an absent and an empty pattern.
\<close>

definition validateString ::
  "js_runtime \<Rightarrow> string \<Rightarrow> schema_fields \<Rightarrow> string \<Rightarrow> validation_error + unit" where
  "validateString rt v f paramName =
     (case (case schema_enum f of
              None \<Rightarrow> None
            | Some vs \<Rightarrow> if JStr v \<notin> set vs then Some (MustBeOneOf paramName vs) else None) of
        Some e \<Rightarrow> Inl e
      | None \<Rightarrow>
     (case (case pattern f of
              None \<Rightarrow> None
            | Some pat \<Rightarrow>
                if pat = [] then None
                else (case regexTest rt pat v of
                        None \<Rightarrow> Some (InvalidRegExp pat)
                      | Some ok \<Rightarrow> if \<not> ok then Some (PatternMismatch paramName pat) else None)) of
        Some e \<Rightarrow> Inl e
      | None \<Rightarrow>
     (case (case minLength f of
              None \<Rightarrow> None
            | Some n \<Rightarrow> if int (utf16_length v) < n then Some (TooShort paramName n) else None) of
        Some e \<Rightarrow> Inl e
      | None \<Rightarrow>
          (case maxLength f of
             None \<Rightarrow> Inr ()
           | Some m \<Rightarrow> if int (utf16_length v) > m then Inl (TooLong paramName m) else Inr ()))))"

definition validateNumber :: "rat \<Rightarrow> schema_fields \<Rightarrow> string \<Rightarrow> validation_error + unit" where
  "validateNumber v f paramName =
     (case (case minimum f of
              None \<Rightarrow> None
            | Some m \<Rightarrow>
                (let isExclusive = (exclusiveMinimum f = Some True)
                 in if (if isExclusive then v \<le> m else v < m)
                    then Some (BelowMinimum paramName isExclusive m) else None)) of
        Some e \<Rightarrow> Inl e
      | None \<Rightarrow>
     (case (case maximum f of
              None \<Rightarrow> None
            | Some m \<Rightarrow>
                (let isExclusive = (exclusiveMaximum f = Some True)
                 in if (if isExclusive then v \<ge> m else v > m)
                    then Some (AboveMaximum paramName isExclusive m) else None)) of
        Some e \<Rightarrow> Inl e
      | None \<Rightarrow>
          if schema_type f = Some ''integer'' \<and> \<not> isInteger v then Inl (MustBeInteger paramName)
          else Inr ()))"

text \<open>The two length checks that open \<open>validateArray\<close>.\<close>

definition array_constraints ::
  "json list \<Rightarrow> schema_fields \<Rightarrow> string \<Rightarrow> validation_error option" where
  "array_constraints xs f paramName =
     (case (case minItems f of
              None \<Rightarrow> None
            | Some n \<Rightarrow> if int (length xs) < n then Some (TooFewItems paramName n) else None) of
        Some e \<Rightarrow> Some e
      | None \<Rightarrow>
          (case maxItems f of
             None \<Rightarrow> None
           | Some n \<Rightarrow> if int (length xs) > n then Some (TooManyItems paramName n) else None))"

text \<open>
  The first name of \<open>schema.required\<close> that is not \<open>in\<close> the value; \<open>in\<close> sees the own
  entries and the inherited names.
\<close>

fun missing_required :: "string list \<Rightarrow> (string \<times> json) list \<Rightarrow> string option" where
  "missing_required [] obj = None"
| "missing_required (q # qs) obj =
     (if property (map_of obj) q = None then Some q else missing_required qs obj)"

text \<open>
  The keys of the value that \<open>Object.keys(schema.properties || {})\<close> does not include:
  \<open>extraProps\<close> of \<open>validateObject\<close>.
\<close>

definition unexpected_properties ::
  "(string \<times> schema) list option \<Rightarrow> (string \<times> json) list \<Rightarrow> string list" where
  "unexpected_properties props obj =
     (let definedProps = map fst (case props of None \<Rightarrow> [] | Some ps \<Rightarrow> ps)
      in filter (\<lambda>key. key \<notin> set definedProps) (map fst obj))"

text \<open>
  \<open>validate\<close>, with the \<open>forEach\<close> of \<open>validateArray\<close> as \<open>validateItems\<close> (from index
  \<open>i\<close> on) and the loop over \<open>Object.entries(schema.properties)\<close> of \<open>validateObject\<close> as
  \<open>validateProperties\<close>; a throw ends each.
\<close>

function validate ::
    "js_runtime \<Rightarrow> json option \<Rightarrow> schema \<Rightarrow> string \<Rightarrow> validation_error + unit"
  and validateItems ::
    "js_runtime \<Rightarrow> json list \<Rightarrow> schema \<Rightarrow> string \<Rightarrow> nat \<Rightarrow> validation_error + unit"
  and validateProperties ::
    "js_runtime \<Rightarrow> (string \<times> json) list \<Rightarrow> (string \<times> schema) list \<Rightarrow> string
       \<Rightarrow> validation_error + unit" where
  "validate rt v (ReferenceObject r) paramName = Inr ()"
| "validate rt v (SchemaObject f items props addl) paramName =
     (if v = None \<or> v = Some JNull then
        (if nullable f = Some True \<or> schema_required f = None then Inr ()
         else Inl (IsRequired paramName))
      else if schema_type f = Some ''string'' then
        (case v of
           Some (JStr s) \<Rightarrow> validateString rt s f paramName
         | _ \<Rightarrow> Inl (MustBeString paramName))
      else if schema_type f = Some ''number'' \<or> schema_type f = Some ''integer'' then
        (case v of
           Some (JNum n) \<Rightarrow> validateNumber n f paramName
         | _ \<Rightarrow> Inl (MustBeNumber paramName))
      else if schema_type f = Some ''boolean'' then
        (case v of
           Some (JBool b) \<Rightarrow> Inr ()
         | _ \<Rightarrow> Inl (MustBeBoolean paramName))
      else if schema_type f = Some ''array'' then
        (case v of
           Some (JArr xs) \<Rightarrow>
             (case array_constraints xs f paramName of
                Some e \<Rightarrow> Inl e
              | None \<Rightarrow>
                  (case items of
                     None \<Rightarrow> Inr ()
                   | Some it \<Rightarrow> validateItems rt xs it paramName 0))
         | _ \<Rightarrow> Inl (MustBeArray paramName))
      else if schema_type f = Some ''object'' then
        (case v of
           Some (JObj obj) \<Rightarrow>
             (case (case schema_required f of
                      None \<Rightarrow> None
                    | Some qs \<Rightarrow> missing_required qs obj) of
                Some q \<Rightarrow> Inl (PropertyRequired q paramName)
              | None \<Rightarrow>
                  (case (case props of
                           None \<Rightarrow> Inr ()
                         | Some ps \<Rightarrow> validateProperties rt obj ps paramName) of
                     Inl e \<Rightarrow> Inl e
                   | Inr u \<Rightarrow>
                       (if addl = Some (Inl False) then
                          (let extraProps = unexpected_properties props obj
                           in if length extraProps > 0
                              then Inl (UnexpectedProperties paramName extraProps)
                              else Inr ())
                        else Inr ())))
         | _ \<Rightarrow> Inl (MustBeObject paramName))
      else Inr ())"
| "validateItems rt [] it paramName i = Inr ()"
| "validateItems rt (x # xs) it paramName i =
     (case validate rt (Some x) it (paramName @ ''['' @ digits i @ '']'') of
        Inl e \<Rightarrow> Inl e
      | Inr u \<Rightarrow> validateItems rt xs it paramName (Suc i))"
| "validateProperties rt obj [] paramName = Inr ()"
| "validateProperties rt obj ((propName, propSchema) # ps) paramName =
     (case (if property (map_of obj) propName \<noteq> None
            then validate rt (property (map_of obj) propName) propSchema
                   (paramName @ ''.'' @ propName)
            else Inr ()) of
        Inl e \<Rightarrow> Inl e
      | Inr u \<Rightarrow> validateProperties rt obj ps paramName)"
  by pat_completeness auto
termination
  by (relation "inv_image (less_than <*lex*> less_than)
        (\<lambda>x. case x of
                Inl (rt, v, s, n) \<Rightarrow> (size s, 0)
              | Inr (Inl (rt, xs, it, n, i)) \<Rightarrow> (size it, Suc (length xs))
              | Inr (Inr (rt, obj, ps, n)) \<Rightarrow> (size_list (size_prod (\<lambda>k. 0) size) ps, 0))")
     auto

section \<open>Catalog builder\<close>

text \<open>
  The document, as far as \<open>generateToolsFromSpec\<close> reads it: \<open>paths\<close> in the order of
  \<open>Object.entries\<close>, the five methods of a path item, the parameters and the JSON request
  body of an operation. A parameter is an object or a \<open>$ref\<close>; references are followed
  into \<open>components.parameters\<close>, where the document keeps parameter objects. A path item
  can declare parameters for all its operations (\<open>item_parameters\<close>); the loader reads the
  five methods of a path item and nothing else of it.
\<close>

record parameter_object =
  po_name :: string
  po_in :: location
  po_description :: "string option"
  po_required :: "bool option"
  po_schema :: "schema option"

datatype parameter_entry = ParameterObject parameter_object | ParameterRef string

record request_body_object =
  rb_description :: "string option"
  rb_required :: "bool option"
  rb_content :: "(string \<times> schema option) list"

datatype request_body_entry = RequestBodyObject request_body_object | RequestBodyRef string

record operation_object =
  operationId :: "string option"
  summary :: "string option"
  op_description :: "string option"
  op_parameters :: "parameter_entry list option"
  requestBody :: "request_body_entry option"

record path_item =
  item_get :: "operation_object option"
  item_post :: "operation_object option"
  item_put :: "operation_object option"
  item_delete :: "operation_object option"
  item_patch :: "operation_object option"
  item_parameters :: "parameter_entry list option"

record document =
  paths :: "(string \<times> path_item option) list option"
  components_parameters :: "(string \<times> parameter_entry) list"

record loader =
  openApiSpec :: "document option"
  apiTools :: "(string \<times> api_tool) list"

text \<open>\<open>a || b\<close> on strings: an absent and an empty string are falsy.\<close>

definition or_else :: "string option \<Rightarrow> string \<Rightarrow> string" where
  "or_else a b = (case a of None \<Rightarrow> b | Some s \<Rightarrow> if s = [] then b else s)"

definition is_alnum :: "char \<Rightarrow> bool" where
  "is_alnum c = (c \<in> set ''abcdefghijklmnopqrstuvwxyzABCDEFGHIJKLMNOPQRSTUVWXYZ0123456789'')"

text \<open>
  \<open>path.replace(/[^a-zA-Z0-9]/g, '_')\<close>: one underscore for every UTF-16 code unit that is
  not an ASCII letter or digit.
\<close>

definition sanitize :: "string \<Rightarrow> string" where
  "sanitize path =
     concat (map (\<lambda>c. if is_alnum c then [c] else replicate (utf16_units c) CHR ''_'') path)"

definition upper_char :: "char \<Rightarrow> char" where
  "upper_char c =
     (case map_of (zip ''abcdefghijklmnopqrstuvwxyz'' ''ABCDEFGHIJKLMNOPQRSTUVWXYZ'') c of
        None \<Rightarrow> c | Some u \<Rightarrow> u)"

definition toUpperCase :: "string \<Rightarrow> string" where
  "toUpperCase s = map upper_char s"

fun split_on :: "char \<Rightarrow> string \<Rightarrow> string list" where
  "split_on sep [] = [[]]"
| "split_on sep (c # cs) =
     (case split_on sep cs of
        [] \<Rightarrow> [[c]]
      | p # ps \<Rightarrow> if c = sep then [] # p # ps else (c # p) # ps)"

text \<open>
  \<open>resolveReference\<close> followed by the test \<open>resolved && 'name' in resolved\<close> of its caller,
  for the pointers \<open>#/components/parameters/NAME\<close> to an own entry of
  \<open>components.parameters\<close>: the parameter object the pointer leads to, if any. The source
  walks any local pointer through the document; pointers to other places are taken as
  unresolved here, and the properties below that read parameters take them inline.
\<close>

definition resolveReference :: "document \<Rightarrow> string \<Rightarrow> parameter_object option" where
  "resolveReference doc ref =
     (if \<not> prefix ''#/'' ref then None
      else (case split_on CHR ''/'' (drop 2 ref) of
              [a, b, n] \<Rightarrow>
                if a = ''components'' \<and> b = ''parameters'' then
                  (case map_of (components_parameters doc) n of
                     Some (ParameterObject po) \<Rightarrow> Some po
                   | _ \<Rightarrow> None)
                else None
            | _ \<Rightarrow> None))"

definition schema_type_of :: "schema option \<Rightarrow> string option" where
  "schema_type_of s = (case s of Some (SchemaObject f items props addl) \<Rightarrow> schema_type f | _ \<Rightarrow> None)"

definition toolParameter :: "parameter_object \<Rightarrow> tool_parameter" where
  "toolParameter param =
     \<lparr>param_name = po_name param,
      param_description = po_description param,
      param_required = (case po_required param of None \<Rightarrow> False | Some b \<Rightarrow> b),
      param_type = or_else (schema_type_of (po_schema param)) ''string'',
      param_location = po_in param\<rparr>"

definition declaredParameters :: "document \<Rightarrow> operation_object \<Rightarrow> tool_parameter list" where
  "declaredParameters doc operation =
     (case op_parameters operation of
        None \<Rightarrow> []
      | Some ps \<Rightarrow>
          concat (map (\<lambda>param. case param of
                                 ParameterObject po \<Rightarrow> [toolParameter po]
                               | ParameterRef ref \<Rightarrow>
                                   (case resolveReference doc ref of
                                      None \<Rightarrow> []
                                    | Some po \<Rightarrow> [toolParameter po])) ps))"

definition bodyParameter :: "operation_object \<Rightarrow> tool_parameter list" where
  "bodyParameter operation =
     (case requestBody operation of
        Some (RequestBodyObject rb) \<Rightarrow>
          (case map_of (rb_content rb) ''application/json'' of
             Some (Some sch) \<Rightarrow>
               [\<lparr>param_name = ''body'',
                 param_description = Some (or_else (rb_description rb) ''Request body''),
                 param_required = (case rb_required rb of None \<Rightarrow> False | Some b \<Rightarrow> b),
                 param_type = ''object'',
                 param_location = Body\<rparr>]
           | _ \<Rightarrow> [])
      | _ \<Rightarrow> [])"

text \<open>
  \<open>createToolFromOperation\<close>. With the parameters given inline nothing in its \<open>try\<close> block
  throws, and the \<open>null\<close> of its \<open>catch\<close> is not returned. (In the source a \<open>$ref\<close> that
  leads to a string or to \<open>true\<close> makes the test \<open>'name' in resolved\<close> throw, and the
  operation is dropped; the resolution above leaves such pointers out.)
\<close>

definition createToolFromOperation ::
  "document \<Rightarrow> string \<Rightarrow> string \<Rightarrow> operation_object \<Rightarrow> api_tool option" where
  "createToolFromOperation doc path meth operation =
     Some \<lparr>tool_name = or_else (operationId operation) (meth @ ''_'' @ sanitize path),
           tool_description =
             or_else (summary operation)
               (or_else (op_description operation) (toUpperCase meth @ '' '' @ path)),
           tool_method = meth,
           tool_path = path,
           tool_parameters = declaredParameters doc operation @ bodyParameter operation\<rparr>"

definition methods :: "string list" where
  "methods = [''get'', ''post'', ''put'', ''delete'', ''patch'']"

definition item_operation :: "path_item \<Rightarrow> string \<Rightarrow> operation_object option" where
  "item_operation pathItem meth =
     (if meth = ''get'' then item_get pathItem
      else if meth = ''post'' then item_post pathItem
      else if meth = ''put'' then item_put pathItem
      else if meth = ''delete'' then item_delete pathItem
      else if meth = ''patch'' then item_patch pathItem
      else None)"

text \<open>The inner \<open>forEach\<close>: one method of one path, on the tools so far (\<open>Map.set\<close>).\<close>

definition addOperation ::
  "document \<Rightarrow> string \<Rightarrow> path_item \<Rightarrow> string \<Rightarrow> (string \<times> api_tool) list
     \<Rightarrow> (string \<times> api_tool) list" where
  "addOperation doc path pathItem meth tools =
     (case item_operation pathItem meth of
        None \<Rightarrow> tools
      | Some operation \<Rightarrow>
          (case createToolFromOperation doc path meth operation of
             None \<Rightarrow> tools
           | Some tool \<Rightarrow> AList.update (tool_name tool) tool tools))"

definition addPath ::
  "document \<Rightarrow> string \<times> path_item option \<Rightarrow> (string \<times> api_tool) list \<Rightarrow> (string \<times> api_tool) list" where
  "addPath doc entry tools =
     (case snd entry of
        None \<Rightarrow> tools
      | Some pathItem \<Rightarrow> fold (addOperation doc (fst entry) pathItem) methods tools)"

definition generateToolsFromSpec :: "loader \<Rightarrow> loader" where
  "generateToolsFromSpec l =
     (case openApiSpec l of
        None \<Rightarrow> l
      | Some doc \<Rightarrow>
          (case paths doc of
             None \<Rightarrow> l
           | Some ps \<Rightarrow> l\<lparr>apiTools := fold (addPath doc) ps []\<rparr>))"

definition getTool :: "loader \<Rightarrow> string \<Rightarrow> api_tool option" where
  "getTool l name = map_of (apiTools l) name"

definition getTools :: "loader \<Rightarrow> (string \<times> api_tool) list" where
  "getTools l = apiTools l"

section \<open>Configuration and inputs of the examples\<close>

text \<open>\<open>getConfig()\<close> with no variable of the environment set.\<close>

definition default_config :: config where
  "default_config =
     \<lparr>petstoreApiBase = ''https://petstore3.swagger.io'',
      openApiSpecUrl = ''https://petstore3.swagger.io'' @ ''/api/v3/openapi.json'',
      cacheTTL = 300000,
      config_maxRetries = 3,
      config_retryDelay = 1000,
      requestTimeout = 30000\<rparr>"

text \<open>The world of a server just started: \<open>new Cache(config.cacheTTL)\<close>, nothing done yet.\<close>

definition fresh_world :: "config \<Rightarrow> int \<Rightarrow> 'a world" where
  "fresh_world cfg now = \<lparr>store = new_cache (Some (cacheTTL cfg)), clock = now, trace = []\<rparr>"

text \<open>
  A run time for the examples. It prints integers and plain ASCII text as the engine
  does, and knows the patterns \<open>^lit\<close> with \<open>lit\<close> alphanumeric; elsewhere it is a
  stand-in. The theorems below hold for every run time.
\<close>

definition json_quote :: "string \<Rightarrow> string" where
  "json_quote s =
     [CHR 0x22]
     @ concat (map (\<lambda>c. if c = CHR 0x22 \<or> c = CHR 0x5C then [CHR 0x5C, c] else [c]) s)
     @ [CHR 0x22]"

text \<open>
  \<open>JSON.stringify\<close> leaves out the entries of an object whose value is a function and
  prints a function in an array as \<open>null\<close>.
\<close>

definition is_function :: "json \<Rightarrow> bool" where
  "is_function v = (case v of JFunction n \<Rightarrow> True | _ \<Rightarrow> False)"

fun json_text :: "json \<Rightarrow> string" where
  "json_text JNull = ''null''"
| "json_text (JBool b) = (if b then ''true'' else ''false'')"
| "json_text (JNum r) = int_toString \<lfloor>r\<rfloor>"
| "json_text (JStr s) = json_quote s"
| "json_text (JArr xs) = ''['' @ join '','' (map json_text xs) @ '']''"
| "json_text (JObj kvs) =
     ''{'' @ join '','' (map (\<lambda>kv. json_quote (fst kv) @ '':'' @ json_text (snd kv))
                           (filter (\<lambda>kv. \<not> is_function (snd kv)) kvs)) @ ''}''"
| "json_text (JFunction n) = ''null''"

definition literal_prefix_test :: "string \<Rightarrow> string \<Rightarrow> bool option" where
  "literal_prefix_test pat s =
     (case pat of
        [] \<Rightarrow> None
      | c # lit \<Rightarrow> if c = CHR ''^'' \<and> list_all is_alnum lit then Some (prefix lit s) else None)"

definition example_runtime :: js_runtime where
  "example_runtime =
     \<lparr>numberToString = (\<lambda>r. int_toString \<lfloor>r\<rfloor>),
      stringify = json_text,
      regexTest = literal_prefix_test,
      functionToString =
        (\<lambda>n. ''function '' @ (if n = ''constructor'' then ''Object'' else n)
              @ ''() { [native code] }'')\<rparr>"

text \<open>A server that answers every request with the same status, after \<open>dt\<close> milliseconds.\<close>

definition plain_response :: "int \<Rightarrow> api_response" where
  "plain_response s =
     \<lparr>status = s, statusText = [], response_headers = [], response_data = JNull\<rparr>"

definition always_status :: "int \<Rightarrow> int \<Rightarrow> backend" where
  "always_status s dt = (\<lambda>req n. (Responds (plain_response s), dt))"

definition unreachable_server :: backend where
  "unreachable_server = (\<lambda>req n. (NoResponse, 0))"

text \<open>Two operations: one with a path parameter, one with a required header.\<close>

definition getPetById :: api_tool where
  "getPetById =
     \<lparr>tool_name = ''getPetById'',
      tool_description = ''Find pet by ID'',
      tool_method = ''get'',
      tool_path = ''/pet/{id}'',
      tool_parameters =
        [\<lparr>param_name = ''id'', param_description = None, param_required = True,
          param_type = ''integer'', param_location = Path\<rparr>]\<rparr>"

definition getReport :: api_tool where
  "getReport =
     \<lparr>tool_name = ''getReport'',
      tool_description = ''Report of a tenant'',
      tool_method = ''get'',
      tool_path = ''/report'',
      tool_parameters =
        [\<lparr>param_name = ''X-Tenant'', param_description = None, param_required = True,
          param_type = ''string'', param_location = Header\<rparr>]\<rparr>"

text \<open>An operation whose required query parameter bears a name that every object inherits.\<close>

definition findByConstructor :: api_tool where
  "findByConstructor =
     \<lparr>tool_name = ''findByConstructor'',
      tool_description = ''Finds classes by constructor'',
      tool_method = ''get'',
      tool_path = ''/class/findByConstructor'',
      tool_parameters =
        [\<lparr>param_name = ''constructor'', param_description = None, param_required = True,
          param_type = ''string'', param_location = Query\<rparr>]\<rparr>"

text \<open>A schema with no member set, schemas with a type only, and a document with one operation.\<close>

definition empty_schema_fields :: schema_fields where
  "empty_schema_fields =
     \<lparr>schema_type = None, nullable = None, schema_required = None, schema_enum = None,
      pattern = None, minLength = None, maxLength = None, minimum = None, maximum = None,
      exclusiveMinimum = None, exclusiveMaximum = None, minItems = None, maxItems = None\<rparr>"

definition typed_schema :: "string \<Rightarrow> schema" where
  "typed_schema t = SchemaObject (empty_schema_fields\<lparr>schema_type := Some t\<rparr>) None None None"

definition pet_parameter :: parameter_object where
  "pet_parameter =
     \<lparr>po_name = ''id'', po_in = Path, po_description = None, po_required = Some True,
      po_schema = Some (typed_schema ''integer'')\<rparr>"

definition pet_operation :: operation_object where
  "pet_operation =
     \<lparr>operationId = Some ''getPetById'',
      summary = Some ''Find pet by ID'',
      op_description = Some ''Returns a single pet'',
      op_parameters = Some [ParameterObject pet_parameter],
      requestBody = None\<rparr>"

definition pet_path_item :: path_item where
  "pet_path_item =
     \<lparr>item_get = Some pet_operation, item_post = None, item_put = None, item_delete = None,
      item_patch = None, item_parameters = None\<rparr>"

definition pet_document :: document where
  "pet_document =
     \<lparr>paths = Some [(''/pet/{id}'', Some pet_path_item)], components_parameters = []\<rparr>"

text \<open>
  The same path with the parameter \<open>id\<close> declared for the path item, as a document may,
  and not in the operation.
\<close>

definition pet_path_item_shared :: path_item where
  "pet_path_item_shared =
     \<lparr>item_get = Some (pet_operation\<lparr>op_parameters := None\<rparr>), item_post = None,
      item_put = None, item_delete = None, item_patch = None,
      item_parameters = Some [ParameterObject pet_parameter]\<rparr>"

definition pet_document_shared :: document where
  "pet_document_shared =
     \<lparr>paths = Some [(''/pet/{id}'', Some pet_path_item_shared)], components_parameters = []\<rparr>"

text \<open>The same path with an operation that also requires a query parameter.\<close>

definition pet_document_strict :: document where
  "pet_document_strict =
     \<lparr>paths = Some [(''/pet/{id}'',
         Some (pet_path_item\<lparr>item_get := Some (pet_operation\<lparr>op_parameters :=
           Some [ParameterObject pet_parameter,
                 ParameterObject
                   \<lparr>po_name = ''fields'', po_in = Query, po_description = None,
                    po_required = Some True, po_schema = Some (typed_schema ''string'')\<rparr>]\<rparr>)\<rparr>))],
      components_parameters = []\<rparr>"

text \<open>An operation with two required path parameters and an optional query parameter.\<close>

definition getOrderItem :: api_tool where
  "getOrderItem =
     \<lparr>tool_name = ''getOrderItem'',
      tool_description = ''Item of an order'',
      tool_method = ''get'',
      tool_path = ''/store/order/{orderId}/item/{itemId}'',
      tool_parameters =
        [\<lparr>param_name = ''orderId'', param_description = None, param_required = True,
          param_type = ''integer'', param_location = Path\<rparr>,
         \<lparr>param_name = ''itemId'', param_description = None, param_required = True,
          param_type = ''integer'', param_location = Path\<rparr>,
         \<lparr>param_name = ''expand'', param_description = None, param_required = False,
          param_type = ''boolean'', param_location = Query\<rparr>]\<rparr>"

text \<open>
  A request as \<open>HttpClient.get\<close> sends it, with no \<open>validateStatus\<close>, and the same with
  the \<open>validateStatus: () => true\<close> that \<open>execute\<close> passes.
\<close>

definition probe :: request_config where
  "probe =
     \<lparr>request_method = ''get'',
      request_url = ''https://petstore3.swagger.io/api/v3/pet/7'',
      request_params = [],
      request_headers = [],
      request_data = None,
      validateStatus = None\<rparr>"

definition accepting_probe :: request_config where
  "accepting_probe = probe\<lparr>validateStatus := Some (\<lambda>s. True)\<rparr>"

section \<open>Properties of the cache\<close>

lemma cache_get_absent: "entries c key = None \<Longrightarrow> cache_get key now c = (None, c)"
  by (simp add: cache_get_def)

lemma cache_get_expired:
  "entries c key = Some e \<Longrightarrow> now - entry_timestamp e > entry_ttl e \<Longrightarrow>
   cache_get key now c = (None, c\<lparr>entries := (entries c)(key := None)\<rparr>)"
  by (simp add: cache_get_def isExpired_def)

lemma cache_get_live:
  "entries c key = Some e \<Longrightarrow> \<not> now - entry_timestamp e > entry_ttl e \<Longrightarrow>
   cache_get key now c = (Some (entry_data e), c)"
  by (simp add: cache_get_def isExpired_def)

lemma cache_get_after_set:
  "cache_get key t1 (cache_set key d ttl t0 c) =
     (if t1 - t0 > effective_ttl ttl (defaultTTL c)
      then (None, c\<lparr>entries := (entries c)(key := None)\<rparr>)
      else (Some d, cache_set key d ttl t0 c))"
  by (simp add: cache_get_def cache_set_def isExpired_def)

text \<open>
  Claim C4, as the code has it. \<open>get\<close> misses when the key has no entry and when its entry
  is expired, an entry being expired exactly when \<open>now - timestamp > ttl\<close>; the expired
  entry is deleted by that \<open>get\<close>, a live one is returned and left in place. The \<open>ttl\<close>
  of an entry is the one passed to \<open>set\<close> when that is not zero, and the default of the
  cache when none or zero is passed.
\<close>

theorem cache_get_miss_iff_absent_or_expired:
  "(entries c key = None \<longrightarrow> cache_get key now c = (None, c)) \<and>
   (\<forall>e. entries c key = Some e \<longrightarrow>
      (if now - entry_timestamp e > entry_ttl e
       then cache_get key now c = (None, c\<lparr>entries := (entries c)(key := None)\<rparr>)
       else cache_get key now c = (Some (entry_data e), c))) \<and>
   (t \<noteq> 0 \<longrightarrow>
      cache_get key t1 (cache_set key d (Some t) t0 c) =
        (if t1 - t0 > t then (None, c\<lparr>entries := (entries c)(key := None)\<rparr>)
         else (Some d, cache_set key d (Some t) t0 c))) \<and>
   (ttl = None \<or> ttl = Some 0 \<longrightarrow>
      cache_get key t1 (cache_set key d ttl t0 c) =
        (if t1 - t0 > defaultTTL c then (None, c\<lparr>entries := (entries c)(key := None)\<rparr>)
         else (Some d, cache_set key d ttl t0 c)))"
  by (auto simp add: cache_get_absent cache_get_expired cache_get_live cache_get_after_set
        effective_ttl_def)

theorem cache_get_miss_iff_absent_or_expired_witness:
  "cache_get ''k'' 5 (new_cache None :: nat cache) = (None, new_cache None) \<and>
   fst (cache_get ''k'' 101 (cache_set ''k'' (1::nat) (Some 100) 0 (new_cache None))) = None \<and>
   entries (snd (cache_get ''k'' 101 (cache_set ''k'' (1::nat) (Some 100) 0 (new_cache None))))
     ''k'' = None \<and>
   fst (cache_get ''k'' 100 (cache_set ''k'' (1::nat) (Some 100) 0 (new_cache None))) = Some 1 \<and>
   fst (cache_get ''k'' 300000 (cache_set ''k'' (1::nat) None 0 (new_cache None))) = Some 1 \<and>
   fst (cache_get ''k'' 300001 (cache_set ''k'' (1::nat) None 0 (new_cache None))) = None"
  using cache_get_miss_iff_absent_or_expired
          [of "new_cache None :: nat cache" "''k''" 5 100 101 1 0 None]
        cache_get_miss_iff_absent_or_expired
          [of "new_cache None :: nat cache" "''k''" 5 100 100 1 0 None]
        cache_get_miss_iff_absent_or_expired
          [of "new_cache None :: nat cache" "''k''" 5 100 300000 1 0 None]
        cache_get_miss_iff_absent_or_expired
          [of "new_cache None :: nat cache" "''k''" 5 100 300001 1 0 None]
  by (simp add: new_cache_def)

text \<open>
  Against C4 as stated: an entry set with the TTL \<open>0\<close> in a cache whose default is five
  minutes is still returned one millisecond later, although \<open>1 - 0 > 0\<close>.
\<close>

theorem cache_ttl_zero_counterexample:
  "(1::int) - 0 > 0 \<and>
   fst (cache_get ''k'' 1 (cache_set ''k'' (1::nat) (Some 0) 0 (new_cache None))) = Some 1"
  by (simp add: cache_get_def cache_set_def isExpired_def new_cache_def effective_ttl_def)

section \<open>Properties of the HTTP client\<close>

lemma client_request_trace:
  "trace (snd (client_request be cfg w)) = trace w @ [Sent (http_request.truncate cfg)]"
  by (simp add: client_request_def Let_def split: prod.splits)

lemma client_request_fst:
  "fst (client_request be cfg w) =
     settle (validateStatus cfg) (fst (be (http_request.truncate cfg) (sent_count w)))"
  by (simp add: client_request_def Let_def split: prod.splits)

lemma client_request_store: "store (snd (client_request be cfg w)) = store w"
  by (simp add: client_request_def Let_def split: prod.splits)

lemma client_request_sent: "sent_count (snd (client_request be cfg w)) = Suc (sent_count w)"
  by (simp add: sent_count_def client_request_trace is_sent_def)

lemma delay_trace: "trace (delay ms w) = trace w @ [Waited ms]"
  by (simp add: delay_def)

lemma delay_store: "store (delay ms w) = store w"
  by (simp add: delay_def)

lemma delay_sent: "sent_count (delay ms w) = sent_count w"
  by (simp add: sent_count_def delay_trace is_sent_def)

lemma shouldRetry_iff:
  "shouldRetry hc err attempt \<longleftrightarrow>
     attempt < maxRetries hc \<and>
     (error_response err = None \<or>
      (\<exists>r. error_response err = Some r \<and> 500 \<le> status r \<and> status r < 600))"
  by (auto simp add: shouldRetry_def split: option.splits)

text \<open>One turn of the loop, by the outcome of its attempt.\<close>

lemma request_loop_resolved:
  "attempt \<le> maxRetries hc \<Longrightarrow> client_request be cfg w = (Inr r, w1) \<Longrightarrow>
   request_loop hc be cfg attempt lastError w = (Inr r, w1)"
  by (subst request_loop.simps) simp

lemma request_loop_thrown:
  "attempt \<le> maxRetries hc \<Longrightarrow> client_request be cfg w = (Inl err, w1) \<Longrightarrow>
   \<not> shouldRetry hc err attempt \<Longrightarrow>
   request_loop hc be cfg attempt lastError w = (Inl (Thrown err), w1)"
  by (subst request_loop.simps) simp

lemma request_loop_retry:
  "client_request be cfg w = (Inl err, w1) \<Longrightarrow> shouldRetry hc err attempt \<Longrightarrow>
   request_loop hc be cfg attempt lastError w =
     request_loop hc be cfg (attempt + 1) (Some err) (delay (retryDelay hc * 2 ^ attempt) w1)"
  by (subst request_loop.simps) (simp add: shouldRetry_def split: if_splits)

lemma request_loop_trace:
  "attempt \<le> maxRetries hc \<Longrightarrow>
   \<exists>k. attempt + k \<le> maxRetries hc \<and>
       trace (snd (request_loop hc be cfg attempt lastError w)) =
         trace w @ concat (map (\<lambda>i. [Sent (http_request.truncate cfg), Waited (retryDelay hc * 2 ^ i)]) [attempt..<attempt + k])
           @ [Sent (http_request.truncate cfg)]"
proof (induction hc be cfg attempt lastError w rule: request_loop.induct)
  case (1 hc be cfg attempt lastError w)
  obtain res w1 where cr: "client_request be cfg w = (res, w1)"
    by (cases "client_request be cfg w")
  have t1: "trace w1 = trace w @ [Sent (http_request.truncate cfg)]"
    using client_request_trace [of be cfg w] cr by simp
  show ?case
  proof (cases res)
    case (Inr r)
    then have "request_loop hc be cfg attempt lastError w = (Inr r, w1)"
      using "1.prems" cr by (simp add: request_loop_resolved)
    then show ?thesis using t1 "1.prems" by (intro exI [of _ 0]) simp
  next
    case (Inl err)
    show ?thesis
    proof (cases "shouldRetry hc err attempt")
      case False
      then have "request_loop hc be cfg attempt lastError w = (Inl (Thrown err), w1)"
        using "1.prems" cr Inl by (simp add: request_loop_thrown)
      then show ?thesis using t1 "1.prems" by (intro exI [of _ 0]) simp
    next
      case True
      then have lt: "attempt < maxRetries hc"
        by (simp add: shouldRetry_iff)
      let ?w2 = "delay (retryDelay hc * 2 ^ attempt) w1"
      have step: "request_loop hc be cfg attempt lastError w =
                  request_loop hc be cfg (attempt + 1) (Some err) ?w2"
        using cr Inl True by (simp add: request_loop_retry)
      from "1.IH" [OF "1.prems" cr [symmetric] Inl _ ] True lt
      obtain k where k: "attempt + 1 + k \<le> maxRetries hc"
        and tr: "trace (snd (request_loop hc be cfg (attempt + 1) (Some err) ?w2)) =
                 trace ?w2 @ concat (map (\<lambda>i. [Sent (http_request.truncate cfg), Waited (retryDelay hc * 2 ^ i)]) [attempt + 1..<attempt + 1 + k])
                   @ [Sent (http_request.truncate cfg)]"
        by auto
      have "[attempt..<attempt + Suc k] = attempt # [attempt + 1..<attempt + 1 + k]"
        by (simp add: upt_conv_Cons)
      then have "trace (snd (request_loop hc be cfg attempt lastError w)) =
                 trace w @ concat (map (\<lambda>i. [Sent (http_request.truncate cfg), Waited (retryDelay hc * 2 ^ i)]) [attempt..<attempt + Suc k])
                   @ [Sent (http_request.truncate cfg)]"
        using step tr t1 by (simp add: delay_trace)
      then show ?thesis using k by (intro exI [of _ "Suc k"]) simp
    qed
  qed
qed

lemma request_loop_store:
  "store (snd (request_loop hc be cfg attempt lastError w)) = store w"
proof (induction hc be cfg attempt lastError w rule: request_loop.induct)
  case (1 hc be cfg attempt lastError w)
  show ?case
  proof (cases "attempt \<le> maxRetries hc")
    case False
    then show ?thesis by (subst request_loop.simps) (simp split: option.splits)
  next
    case le: True
    obtain res w1 where cr: "client_request be cfg w = (res, w1)"
      by (cases "client_request be cfg w")
    have s1: "store w1 = store w"
      using client_request_store [of be cfg w] cr by simp
    show ?thesis
    proof (cases res)
      case (Inr r)
      then show ?thesis using le cr s1 by (simp add: request_loop_resolved)
    next
      case (Inl err)
      show ?thesis
      proof (cases "shouldRetry hc err attempt")
        case False
        then show ?thesis using le cr Inl s1 by (simp add: request_loop_thrown)
      next
        case True
        have "store (snd (request_loop hc be cfg (attempt + 1) (Some err)
                 (delay (retryDelay hc * 2 ^ attempt) w1))) =
              store (delay (retryDelay hc * 2 ^ attempt) w1)"
          using "1.IH" [OF le cr [symmetric] Inl] True by simp
        then show ?thesis
          using cr Inl True s1 by (simp add: request_loop_retry delay_store)
      qed
    qed
  qed
qed

lemma sent_count_append:
  "trace w' = trace w @ evs \<Longrightarrow> sent_count w' = sent_count w + length (filter is_sent evs)"
  by (simp add: sent_count_def)

lemma filter_sent_attempts:
  "length (filter is_sent (concat (map (\<lambda>i. [Sent rq, Waited (f i)]) ns))) = length ns"
  by (induction ns) (simp_all add: is_sent_def)

lemma request_loop_sends:
  "attempt \<le> maxRetries hc \<Longrightarrow>
   sent_count w < sent_count (snd (request_loop hc be cfg attempt lastError w))"
proof -
  assume "attempt \<le> maxRetries hc"
  from request_loop_trace [OF this, of be cfg lastError w]
  obtain k where
    "trace (snd (request_loop hc be cfg attempt lastError w)) =
       trace w @ (concat (map (\<lambda>i. [Sent (http_request.truncate cfg), Waited (retryDelay hc * 2 ^ i)]) [attempt..<attempt + k])
         @ [Sent (http_request.truncate cfg)])"
    by auto
  from sent_count_append [OF this] show ?thesis
    by (simp add: is_sent_def)
qed

text \<open>More than one request goes out from an attempt on exactly when that attempt is retried.\<close>

lemma request_loop_retries_iff:
  assumes le: "attempt \<le> maxRetries hc"
  shows "sent_count (snd (request_loop hc be cfg attempt lastError w)) > sent_count w + 1 \<longleftrightarrow>
         attempt < maxRetries hc \<and>
         (\<exists>err. settle (validateStatus cfg) (fst (be (http_request.truncate cfg) (sent_count w)))
                   = Inl err \<and>
                (error_response err = None \<or>
                 (\<exists>r. error_response err = Some r \<and> 500 \<le> status r \<and> status r < 600)))"
proof -
  obtain res w1 where cr: "client_request be cfg w = (res, w1)"
    by (cases "client_request be cfg w")
  have res: "res = settle (validateStatus cfg) (fst (be (http_request.truncate cfg) (sent_count w)))"
    using client_request_fst [of be cfg w] cr by simp
  have s1: "sent_count w1 = Suc (sent_count w)"
    using client_request_sent [of be cfg w] cr by simp
  show ?thesis
  proof (cases res)
    case (Inr r)
    then have "request_loop hc be cfg attempt lastError w = (Inr r, w1)"
      using le cr by (simp add: request_loop_resolved)
    then show ?thesis using s1 res [symmetric] Inr by simp
  next
    case (Inl err)
    show ?thesis
    proof (cases "shouldRetry hc err attempt")
      case False
      then have "request_loop hc be cfg attempt lastError w = (Inl (Thrown err), w1)"
        using le cr Inl by (simp add: request_loop_thrown)
      moreover have "\<not> (attempt < maxRetries hc \<and>
         (error_response err = None \<or>
          (\<exists>r. error_response err = Some r \<and> 500 \<le> status r \<and> status r < 600)))"
        using False by (simp add: shouldRetry_iff)
      ultimately show ?thesis using s1 res [symmetric] Inl by simp
    next
      case True
      let ?w2 = "delay (retryDelay hc * 2 ^ attempt) w1"
      have step: "request_loop hc be cfg attempt lastError w =
                  request_loop hc be cfg (attempt + 1) (Some err) ?w2"
        using cr Inl True by (simp add: request_loop_retry)
      have lt: "attempt < maxRetries hc" using True by (simp add: shouldRetry_iff)
      then have "sent_count ?w2 < sent_count (snd (request_loop hc be cfg (attempt + 1) (Some err) ?w2))"
        by (intro request_loop_sends) simp
      then have "sent_count (snd (request_loop hc be cfg attempt lastError w)) > sent_count w + 1"
        using step s1 by (simp add: delay_sent)
      moreover have "attempt < maxRetries hc \<and>
         (error_response err = None \<or>
          (\<exists>r. error_response err = Some r \<and> 500 \<le> status r \<and> status r < 600))"
        using True by (simp add: shouldRetry_iff)
      ultimately show ?thesis using res [symmetric] Inl by simp
    qed
  qed
qed

lemma request_loop_exhausts:
  "\<forall>n. \<exists>err. settle (validateStatus cfg) (fst (be (http_request.truncate cfg) n)) = Inl err \<and>
        (error_response err = None \<or>
         (\<exists>r. error_response err = Some r \<and> 500 \<le> status r \<and> status r < 600)) \<Longrightarrow>
   attempt \<le> maxRetries hc \<Longrightarrow>
   sent_count (snd (request_loop hc be cfg attempt lastError w)) =
     sent_count w + (maxRetries hc - attempt) + 1 \<and>
   fst (request_loop hc be cfg attempt lastError w) =
     (case settle (validateStatus cfg)
             (fst (be (http_request.truncate cfg) (sent_count w + (maxRetries hc - attempt)))) of
        Inl err \<Rightarrow> Inl (Thrown err) | Inr r \<Rightarrow> Inr r)"
proof (induction hc be cfg attempt lastError w rule: request_loop.induct)
  case (1 hc be cfg attempt lastError w)
  note all = "1.prems"(1) and le = "1.prems"(2)
  obtain res w1 where cr: "client_request be cfg w = (res, w1)"
    by (cases "client_request be cfg w")
  have res: "settle (validateStatus cfg) (fst (be (http_request.truncate cfg) (sent_count w))) = res"
    using client_request_fst [of be cfg w] cr by simp
  have s1: "sent_count w1 = Suc (sent_count w)"
    using client_request_sent [of be cfg w] cr by simp
  from all res obtain err where err: "res = Inl err"
    and retryable: "error_response err = None \<or>
         (\<exists>r. error_response err = Some r \<and> 500 \<le> status r \<and> status r < 600)"
    by metis
  show ?case
  proof (cases "attempt < maxRetries hc")
    case False
    then have eq: "attempt = maxRetries hc" using le by simp
    have "\<not> shouldRetry hc err attempt" using False by (simp add: shouldRetry_iff)
    then have "request_loop hc be cfg attempt lastError w = (Inl (Thrown err), w1)"
      using le cr err by (simp add: request_loop_thrown)
    then show ?thesis using s1 eq res err by simp
  next
    case True
    then have sr: "shouldRetry hc err attempt" using retryable by (simp add: shouldRetry_iff)
    let ?w2 = "delay (retryDelay hc * 2 ^ attempt) w1"
    have step: "request_loop hc be cfg attempt lastError w =
                request_loop hc be cfg (attempt + 1) (Some err) ?w2"
      using cr err sr by (simp add: request_loop_retry)
    have s2: "sent_count ?w2 = Suc (sent_count w)"
      using s1 by (simp add: delay_sent)
    have idx: "Suc (sent_count w) + (maxRetries hc - (attempt + 1)) =
               sent_count w + (maxRetries hc - attempt)"
      using True by simp
    from "1.IH" [OF le cr [symmetric] err _ all] sr True
    have "sent_count (snd (request_loop hc be cfg (attempt + 1) (Some err) ?w2)) =
            sent_count ?w2 + (maxRetries hc - (attempt + 1)) + 1 \<and>
          fst (request_loop hc be cfg (attempt + 1) (Some err) ?w2) =
            (case settle (validateStatus cfg)
                    (fst (be (http_request.truncate cfg)
                       (sent_count ?w2 + (maxRetries hc - (attempt + 1))))) of
               Inl err \<Rightarrow> Inl (Thrown err) | Inr r \<Rightarrow> Inr r)"
      by simp
    then show ?thesis
      unfolding step s2 idx using True by simp
  qed
qed

lemma request_first_attempt_resolved:
  assumes "fst (be (http_request.truncate cfg) (sent_count w)) = Responds r"
      and "status_accepted (validateStatus cfg) (status r)"
  shows "fst (request hc be cfg w) = Inr r \<and>
         sent_count (snd (request hc be cfg w)) = sent_count w + 1"
proof -
  obtain res w1 where cr: "client_request be cfg w = (res, w1)"
    by (cases "client_request be cfg w")
  have "res = Inr r"
    using client_request_fst [of be cfg w] cr assms by (simp add: settle_def)
  then have "request hc be cfg w = (Inr r, w1)"
    using cr by (simp add: request_def request_loop_resolved)
  then show ?thesis using client_request_sent [of be cfg w] cr by simp
qed

lemma request_first_attempt_rejected:
  assumes "fst (be (http_request.truncate cfg) (sent_count w)) = Responds r"
      and "\<not> status_accepted (validateStatus cfg) (status r)"
      and "\<not> (500 \<le> status r \<and> status r < 600)"
  shows "fst (request hc be cfg w) = Inl (Thrown (AxiosError (Some r))) \<and>
         sent_count (snd (request hc be cfg w)) = sent_count w + 1"
proof -
  obtain res w1 where cr: "client_request be cfg w = (res, w1)"
    by (cases "client_request be cfg w")
  have "res = Inl (AxiosError (Some r))"
    using client_request_fst [of be cfg w] cr assms by (simp add: settle_def)
  moreover have "\<not> shouldRetry hc (AxiosError (Some r)) 0"
    using assms(3) by (simp add: shouldRetry_iff)
  ultimately have "request hc be cfg w = (Inl (Thrown (AxiosError (Some r))), w1)"
    using cr by (simp add: request_def request_loop_thrown)
  then show ?thesis using client_request_sent [of be cfg w] cr by simp
qed

lemma request_server_errors_exhaust:
  assumes vs: "validateStatus cfg = None"
      and all: "\<forall>n. \<exists>r dt. be (http_request.truncate cfg) n = (Responds r, dt) \<and>
                        500 \<le> status r \<and> status r < 600"
  shows "sent_count (snd (request hc be cfg w)) = sent_count w + maxRetries hc + 1 \<and>
         (\<exists>r. fst (request hc be cfg w) = Inl (Thrown (AxiosError (Some r))) \<and>
              fst (be (http_request.truncate cfg) (sent_count w + maxRetries hc)) = Responds r)"
proof -
  have settled: "settle (validateStatus cfg) (fst (be (http_request.truncate cfg) n)) =
                   Inl (AxiosError (Some r))"
    if "be (http_request.truncate cfg) n = (Responds r, dt)" "500 \<le> status r" for n r dt
    using that vs by (simp add: settle_def status_accepted_def)
  have "\<forall>n. \<exists>err. settle (validateStatus cfg) (fst (be (http_request.truncate cfg) n)) = Inl err \<and>
          (error_response err = None \<or>
           (\<exists>r. error_response err = Some r \<and> 500 \<le> status r \<and> status r < 600))"
  proof
    fix n
    from all obtain r dt where r: "be (http_request.truncate cfg) n = (Responds r, dt)"
      "500 \<le> status r" "status r < 600" by blast
    from settled [OF r(1) r(2)] r(2,3)
    show "\<exists>err. settle (validateStatus cfg) (fst (be (http_request.truncate cfg) n)) = Inl err \<and>
          (error_response err = None \<or>
           (\<exists>r. error_response err = Some r \<and> 500 \<le> status r \<and> status r < 600))"
      by (intro exI [of _ "AxiosError (Some r)"]) simp
  qed
  from request_loop_exhausts [of cfg be 0 hc None w] this
  have ex: "sent_count (snd (request hc be cfg w)) = sent_count w + maxRetries hc + 1"
    and res: "fst (request hc be cfg w) =
      (case settle (validateStatus cfg)
             (fst (be (http_request.truncate cfg) (sent_count w + maxRetries hc))) of
        Inl err \<Rightarrow> Inl (Thrown err) | Inr r \<Rightarrow> Inr r)"
    by (simp_all add: request_def)
  from all obtain r dt where
    r: "be (http_request.truncate cfg) (sent_count w + maxRetries hc) = (Responds r, dt)"
      "500 \<le> status r" by blast
  have "fst (request hc be cfg w) = Inl (Thrown (AxiosError (Some r)))"
    using res settled [OF r] by simp
  with ex r(1) show ?thesis by simp
qed

text \<open>
  Claim C2, as the code has it. \<open>shouldRetry\<close> holds exactly when the attempt index is
  below \<open>maxRetries\<close> and the caught error carries no response or a response with a
  status in \<open>[500,600)\<close>; from any attempt of the loop, a further request goes out
  exactly when that attempt was rejected with such an error and its index is below
  \<open>maxRetries\<close>. An attempt is rejected only when no response came or when
  \<open>validateStatus\<close> does not accept the status: by default a status outside \<open>[200,300)\<close>.
  So, with the default \<open>validateStatus\<close>, a server that always answers with a status in
  \<open>[500,600)\<close> (503, say) is called \<open>maxRetries + 1\<close> times and the error of the last
  attempt is thrown, and a server that answers 4xx (404, say) is called once and that
  error is thrown. A response whose status \<open>validateStatus\<close> accepts is returned after
  one call, whatever the status: with the \<open>validateStatus: () => true\<close> of
  \<open>ToolExecutor.execute\<close> that is every response, 503 included.
\<close>

theorem request_retry_policy:
  "(shouldRetry hc err attempt \<longleftrightarrow>
      attempt < maxRetries hc \<and>
      (error_response err = None \<or>
       (\<exists>r. error_response err = Some r \<and> 500 \<le> status r \<and> status r < 600))) \<and>
   (attempt \<le> maxRetries hc \<longrightarrow>
      (sent_count (snd (request_loop hc be cfg attempt lastError w)) > sent_count w + 1 \<longleftrightarrow>
       attempt < maxRetries hc \<and>
       (\<exists>e. settle (validateStatus cfg) (fst (be (http_request.truncate cfg) (sent_count w)))
               = Inl e \<and>
            (error_response e = None \<or>
             (\<exists>r. error_response e = Some r \<and> 500 \<le> status r \<and> status r < 600))))) \<and>
   (validateStatus cfg = None \<and>
    (\<forall>n. \<exists>r dt. be (http_request.truncate cfg) n = (Responds r, dt) \<and>
                 500 \<le> status r \<and> status r < 600) \<longrightarrow>
      sent_count (snd (request hc be cfg w)) = sent_count w + maxRetries hc + 1 \<and>
      (\<exists>r. fst (request hc be cfg w) = Inl (Thrown (AxiosError (Some r))) \<and>
           fst (be (http_request.truncate cfg) (sent_count w + maxRetries hc)) = Responds r)) \<and>
   (validateStatus cfg = None \<and>
    fst (be (http_request.truncate cfg) (sent_count w)) = Responds r4 \<and>
    400 \<le> status r4 \<and> status r4 < 500 \<longrightarrow>
      fst (request hc be cfg w) = Inl (Thrown (AxiosError (Some r4))) \<and>
      sent_count (snd (request hc be cfg w)) = sent_count w + 1) \<and>
   (fst (be (http_request.truncate cfg) (sent_count w)) = Responds r2 \<and>
    status_accepted (validateStatus cfg) (status r2) \<longrightarrow>
      fst (request hc be cfg w) = Inr r2 \<and>
      sent_count (snd (request hc be cfg w)) = sent_count w + 1)"
proof (intro conjI impI)
  show "shouldRetry hc err attempt \<longleftrightarrow>
      attempt < maxRetries hc \<and>
      (error_response err = None \<or>
       (\<exists>r. error_response err = Some r \<and> 500 \<le> status r \<and> status r < 600))"
    by (rule shouldRetry_iff)
next
  assume "attempt \<le> maxRetries hc"
  then show "sent_count (snd (request_loop hc be cfg attempt lastError w)) > sent_count w + 1 \<longleftrightarrow>
       attempt < maxRetries hc \<and>
       (\<exists>e. settle (validateStatus cfg) (fst (be (http_request.truncate cfg) (sent_count w)))
               = Inl e \<and>
            (error_response e = None \<or>
             (\<exists>r. error_response e = Some r \<and> 500 \<le> status r \<and> status r < 600)))"
    by (rule request_loop_retries_iff)
next
  assume a: "validateStatus cfg = None \<and>
    (\<forall>n. \<exists>r dt. be (http_request.truncate cfg) n = (Responds r, dt) \<and>
                 500 \<le> status r \<and> status r < 600)"
  from request_server_errors_exhaust [of cfg be hc w] a
  show "sent_count (snd (request hc be cfg w)) = sent_count w + maxRetries hc + 1"
    and "\<exists>r. fst (request hc be cfg w) = Inl (Thrown (AxiosError (Some r))) \<and>
           fst (be (http_request.truncate cfg) (sent_count w + maxRetries hc)) = Responds r"
    by simp_all
next
  assume a: "validateStatus cfg = None \<and>
    fst (be (http_request.truncate cfg) (sent_count w)) = Responds r4 \<and>
    400 \<le> status r4 \<and> status r4 < 500"
  then have "\<not> status_accepted (validateStatus cfg) (status r4)"
    by (simp add: status_accepted_def)
  from request_first_attempt_rejected [OF _ this, of be w hc] a
  show "fst (request hc be cfg w) = Inl (Thrown (AxiosError (Some r4)))"
    and "sent_count (snd (request hc be cfg w)) = sent_count w + 1"
    by simp_all
next
  assume a: "fst (be (http_request.truncate cfg) (sent_count w)) = Responds r2 \<and>
    status_accepted (validateStatus cfg) (status r2)"
  from request_first_attempt_resolved [of be cfg w r2 hc] a
  show "fst (request hc be cfg w) = Inr r2"
    and "sent_count (snd (request hc be cfg w)) = sent_count w + 1"
    by simp_all
qed

theorem request_retry_policy_witness:
  "sent_count (snd (request (new_http_client default_config) (always_status 503 0) probe
          (fresh_world default_config 0 :: api_response world))) = 4 \<and>
   fst (request (new_http_client default_config) (always_status 503 0) probe
          (fresh_world default_config 0 :: api_response world)) =
     Inl (Thrown (AxiosError (Some (plain_response 503)))) \<and>
   sent_count (snd (request (new_http_client default_config) (always_status 404 0) probe
          (fresh_world default_config 0 :: api_response world))) = 1 \<and>
   fst (request (new_http_client default_config) (always_status 404 0) probe
          (fresh_world default_config 0 :: api_response world)) =
     Inl (Thrown (AxiosError (Some (plain_response 404)))) \<and>
   sent_count (snd (request (new_http_client default_config) (always_status 200 0) probe
          (fresh_world default_config 0 :: api_response world))) = 1 \<and>
   fst (request (new_http_client default_config) (always_status 200 0) probe
          (fresh_world default_config 0 :: api_response world)) = Inr (plain_response 200)"
  using request_retry_policy [where hc = "new_http_client default_config"
          and err = "AxiosError None" and attempt = 0 and be = "always_status 503 0"
          and cfg = probe and lastError = None
          and w = "fresh_world default_config 0 :: api_response world"
          and ?r4.0 = "plain_response 404" and ?r2.0 = "plain_response 200"]
        request_retry_policy [where hc = "new_http_client default_config"
          and err = "AxiosError None" and attempt = 0 and be = "always_status 404 0"
          and cfg = probe and lastError = None
          and w = "fresh_world default_config 0 :: api_response world"
          and ?r4.0 = "plain_response 404" and ?r2.0 = "plain_response 200"]
        request_retry_policy [where hc = "new_http_client default_config"
          and err = "AxiosError None" and attempt = 0 and be = "always_status 200 0"
          and cfg = probe and lastError = None
          and w = "fresh_world default_config 0 :: api_response world"
          and ?r4.0 = "plain_response 404" and ?r2.0 = "plain_response 200"]
  by (simp add: probe_def always_status_def plain_response_def status_accepted_def
        new_http_client_def default_config_def sent_count_def fresh_world_def)

text \<open>
  Against C2 as stated: with three retries configured and the \<open>validateStatus\<close> that
  \<open>execute\<close> passes, a server that always answers 503 is called once, not four times, and
  the 503 response is returned, not thrown.
\<close>

theorem accepted_503_is_not_retried_counterexample:
  "fst (request (new_http_client default_config) (always_status 503 0) accepting_probe
          (fresh_world default_config 0 :: api_response world)) = Inr (plain_response 503) \<and>
   sent_count (snd (request (new_http_client default_config) (always_status 503 0) accepting_probe
          (fresh_world default_config 0 :: api_response world))) = 1 \<and>
   maxRetries (new_http_client default_config) + 1 = 4"
  by (simp add: request_def request_loop.simps client_request_def settle_def status_accepted_def
        always_status_def plain_response_def sent_count_def fresh_world_def new_http_client_def
        default_config_def probe_def accepting_probe_def http_request.truncate_def is_sent_def)

lemma client_request_clock:
  "clock (snd (client_request be cfg w)) =
     clock w + snd (be (http_request.truncate cfg) (sent_count w))"
  by (simp add: client_request_def Let_def split: prod.splits)

lemma delay_clock: "clock (delay ms w) = clock w + timer_delay ms"
  by (simp add: delay_def)

text \<open>
  The events and the time of the loop from an attempt on: the attempts, each after the
  first preceded by a wait, the time the attempts took and the time the timers ran.
\<close>

lemma request_loop_clock:
  "attempt \<le> maxRetries hc \<Longrightarrow>
   \<exists>k. attempt + k \<le> maxRetries hc \<and>
       trace (snd (request_loop hc be cfg attempt lastError w)) =
         trace w @ concat (map (\<lambda>i. [Sent (http_request.truncate cfg), Waited (retryDelay hc * 2 ^ i)]) [attempt..<attempt + k])
           @ [Sent (http_request.truncate cfg)] \<and>
       clock (snd (request_loop hc be cfg attempt lastError w)) =
         clock w + (\<Sum>i<Suc k. snd (be (http_request.truncate cfg) (sent_count w + i)))
           + (\<Sum>i<k. timer_delay (retryDelay hc * 2 ^ (attempt + i)))"
proof (induction hc be cfg attempt lastError w rule: request_loop.induct)
  case (1 hc be cfg attempt lastError w)
  obtain res w1 where cr: "client_request be cfg w = (res, w1)"
    by (cases "client_request be cfg w")
  have t1: "trace w1 = trace w @ [Sent (http_request.truncate cfg)]"
    using client_request_trace [of be cfg w] cr by simp
  have c1: "clock w1 = clock w + snd (be (http_request.truncate cfg) (sent_count w))"
    using client_request_clock [of be cfg w] cr by simp
  have s1: "sent_count w1 = Suc (sent_count w)"
    using client_request_sent [of be cfg w] cr by simp
  show ?case
  proof (cases res)
    case (Inr r)
    then have "request_loop hc be cfg attempt lastError w = (Inr r, w1)"
      using "1.prems" cr by (simp add: request_loop_resolved)
    then show ?thesis using t1 c1 "1.prems" by (intro exI [of _ 0]) simp
  next
    case (Inl err)
    show ?thesis
    proof (cases "shouldRetry hc err attempt")
      case False
      then have "request_loop hc be cfg attempt lastError w = (Inl (Thrown err), w1)"
        using "1.prems" cr Inl by (simp add: request_loop_thrown)
      then show ?thesis using t1 c1 "1.prems" by (intro exI [of _ 0]) simp
    next
      case True
      then have lt: "attempt < maxRetries hc"
        by (simp add: shouldRetry_iff)
      let ?w2 = "delay (retryDelay hc * 2 ^ attempt) w1"
      let ?lat = "\<lambda>i. snd (be (http_request.truncate cfg) (sent_count w + i))"
      have step: "request_loop hc be cfg attempt lastError w =
                  request_loop hc be cfg (attempt + 1) (Some err) ?w2"
        using cr Inl True by (simp add: request_loop_retry)
      have s2: "sent_count ?w2 = Suc (sent_count w)"
        using s1 by (simp add: delay_sent)
      have c2: "clock ?w2 = clock w + ?lat 0 + timer_delay (retryDelay hc * 2 ^ attempt)"
        using c1 by (simp add: delay_clock)
      from "1.IH" [OF "1.prems" cr [symmetric] Inl _ ] True lt
      obtain k where k: "attempt + 1 + k \<le> maxRetries hc"
        and tr: "trace (snd (request_loop hc be cfg (attempt + 1) (Some err) ?w2)) =
                 trace ?w2 @ concat (map (\<lambda>i. [Sent (http_request.truncate cfg), Waited (retryDelay hc * 2 ^ i)]) [attempt + 1..<attempt + 1 + k])
                   @ [Sent (http_request.truncate cfg)]"
        and cl: "clock (snd (request_loop hc be cfg (attempt + 1) (Some err) ?w2)) =
                 clock ?w2
                 + (\<Sum>i<Suc k. snd (be (http_request.truncate cfg) (sent_count ?w2 + i)))
                 + (\<Sum>i<k. timer_delay (retryDelay hc * 2 ^ (attempt + 1 + i)))"
        by auto
      have "[attempt..<attempt + Suc k] = attempt # [attempt + 1..<attempt + 1 + k]"
        by (simp add: upt_conv_Cons)
      then have tr': "trace (snd (request_loop hc be cfg attempt lastError w)) =
                 trace w @ concat (map (\<lambda>i. [Sent (http_request.truncate cfg), Waited (retryDelay hc * 2 ^ i)]) [attempt..<attempt + Suc k])
                   @ [Sent (http_request.truncate cfg)]"
        using step tr t1 by (simp add: delay_trace)
      have lats: "(\<Sum>i<Suc (Suc k). ?lat i) = ?lat 0 + (\<Sum>i<Suc k. ?lat (Suc i))"
        by (rule sum.lessThan_Suc_shift)
      have waits: "(\<Sum>i<Suc k. timer_delay (retryDelay hc * 2 ^ (attempt + i))) =
                   timer_delay (retryDelay hc * 2 ^ attempt)
                   + (\<Sum>i<k. timer_delay (retryDelay hc * 2 ^ (attempt + Suc i)))"
        using sum.lessThan_Suc_shift [of "\<lambda>i. timer_delay (retryDelay hc * 2 ^ (attempt + i))" k]
        by simp
      have cl': "clock (snd (request_loop hc be cfg attempt lastError w)) =
                 clock w + (\<Sum>i<Suc (Suc k). ?lat i)
                 + (\<Sum>i<Suc k. timer_delay (retryDelay hc * 2 ^ (attempt + i)))"
        unfolding step cl s2 c2 lats waits by simp
      show ?thesis using k tr' cl' by (intro exI [of _ "Suc k"]) simp
    qed
  qed
qed

lemma timer_delay_in_range:
  "1 \<le> ms \<Longrightarrow> ms \<le> 2147483647 \<Longrightarrow> timer_delay ms = ms"
  by (simp add: timer_delay_def)

lemma unreachable_server_run:
  "trace (snd (request (new_http_client default_config) unreachable_server probe
          (fresh_world default_config 0 :: api_response world))) =
   [Sent (http_request.truncate probe), Waited 1000, Sent (http_request.truncate probe), Waited 2000,
    Sent (http_request.truncate probe), Waited 4000, Sent (http_request.truncate probe)] \<and>
   clock (snd (request (new_http_client default_config) unreachable_server probe
          (fresh_world default_config 0 :: api_response world))) = 7000"
  by (simp add: request_def request_loop.simps client_request_def settle_def sent_count_def
        fresh_world_def new_http_client_def default_config_def probe_def timer_delay_def
        http_request.truncate_def delay_def shouldRetry_def is_sent_def unreachable_server_def)

text \<open>
  Claim C9, as the code has it. Let the products \<open>retryDelay * 2 ^ attempt\<close> stay within
  the range of the doubles. The events of a request are its attempts with a wait after
  each attempt that is retried, and the timer of the wait after attempt \<open>i\<close> (counted from
  zero) is called with \<open>retryDelay * 2 ^ i\<close> exactly: attempt 0, \<open>retryDelay\<close>, attempt 1,
  \<open>2 * retryDelay\<close>, and so on up to the last attempt \<open>k\<close>, at most \<open>maxRetries\<close>. The
  request takes the time of its attempts and of its timers; the timer set to \<open>ms\<close> runs
  \<open>ms\<close> milliseconds when \<open>1 \<le> ms \<le> 2^31 - 1\<close>, and one millisecond otherwise.
\<close>

theorem retry_delay_is_exponential:
  assumes "maxRetries hc < 1024 \<and> \<bar>retryDelay hc\<bar> * 2 ^ maxRetries hc < 2 ^ 1024"
  shows "\<exists>k\<le>maxRetries hc.
     trace (snd (request hc be cfg w)) =
       trace w
       @ concat (map (\<lambda>i. [Sent (http_request.truncate cfg), Waited (retryDelay hc * 2 ^ i)])
                   [0..<k])
       @ [Sent (http_request.truncate cfg)] \<and>
     clock (snd (request hc be cfg w)) =
       clock w
       + (\<Sum>i<Suc k. snd (be (http_request.truncate cfg) (sent_count w + i)))
       + (\<Sum>i<k. timer_delay (retryDelay hc * 2 ^ i)) \<and>
     (\<forall>i<k. timer_delay (retryDelay hc * 2 ^ i) =
              (if 1 \<le> retryDelay hc * 2 ^ i \<and> retryDelay hc * 2 ^ i \<le> 2147483647
               then retryDelay hc * 2 ^ i else 1))"
proof -
  from request_loop_clock [of 0 hc be cfg None w]
  obtain k where k: "k \<le> maxRetries hc"
    and tr: "trace (snd (request hc be cfg w)) =
       trace w
       @ concat (map (\<lambda>i. [Sent (http_request.truncate cfg), Waited (retryDelay hc * 2 ^ i)])
                   [0..<k])
       @ [Sent (http_request.truncate cfg)]"
    and cl: "clock (snd (request hc be cfg w)) =
       clock w
       + (\<Sum>i<Suc k. snd (be (http_request.truncate cfg) (sent_count w + i)))
       + (\<Sum>i<k. timer_delay (retryDelay hc * 2 ^ i))"
    by (auto simp add: request_def)
  have "\<forall>i<k. timer_delay (retryDelay hc * 2 ^ i) =
              (if 1 \<le> retryDelay hc * 2 ^ i \<and> retryDelay hc * 2 ^ i \<le> 2147483647
               then retryDelay hc * 2 ^ i else 1)"
    by (auto simp add: timer_delay_def)
  with k tr cl show ?thesis by (intro exI [of _ k]) simp
qed

theorem retry_delay_is_exponential_witness:
  "(\<exists>k\<le>3. trace (snd (request (new_http_client default_config) unreachable_server probe
          (fresh_world default_config 0 :: api_response world))) =
       concat (map (\<lambda>i. [Sent (http_request.truncate probe), Waited (1000 * 2 ^ i)]) [0..<k])
       @ [Sent (http_request.truncate probe)] \<and>
     clock (snd (request (new_http_client default_config) unreachable_server probe
          (fresh_world default_config 0 :: api_response world))) =
       (\<Sum>i<k. timer_delay (1000 * 2 ^ i)) \<and>
     (\<forall>i<k. timer_delay (1000 * 2 ^ i) =
              (if (1::int) \<le> 1000 * 2 ^ i \<and> (1000::int) * 2 ^ i \<le> 2147483647
               then 1000 * 2 ^ i else 1))) \<and>
   trace (snd (request (new_http_client default_config) unreachable_server probe
          (fresh_world default_config 0 :: api_response world))) =
   [Sent (http_request.truncate probe), Waited 1000, Sent (http_request.truncate probe), Waited 2000,
    Sent (http_request.truncate probe), Waited 4000, Sent (http_request.truncate probe)] \<and>
   clock (snd (request (new_http_client default_config) unreachable_server probe
          (fresh_world default_config 0 :: api_response world))) = 1000 + 2000 + 4000"
  using retry_delay_is_exponential [of "new_http_client default_config" unreachable_server probe
          "fresh_world default_config 0 :: api_response world"]
        unreachable_server_run
  by (simp add: new_http_client_def default_config_def fresh_world_def unreachable_server_def
        cong del: if_weak_cong)

text \<open>
  Against C9 as stated: with a retry delay of \<open>0\<close> the wait before the retry lasts one
  millisecond, not \<open>0 * 2 ^ 0\<close>; and with the default retry delay of one second and 23
  retries, the wait after attempt 22 lasts one millisecond, not \<open>1000 * 2 ^ 22\<close>, so that
  the request is over after \<open>1000 * (2 ^ 22 - 1) + 1\<close> milliseconds.
\<close>

theorem timer_range_counterexample:
  "trace (snd (request \<lparr>maxRetries = 1, retryDelay = 0\<rparr> unreachable_server probe
          (fresh_world default_config 0 :: api_response world))) =
     [Sent (http_request.truncate probe), Waited (0 * 2 ^ 0), Sent (http_request.truncate probe)] \<and>
   clock (snd (request \<lparr>maxRetries = 1, retryDelay = 0\<rparr> unreachable_server probe
          (fresh_world default_config 0 :: api_response world))) = 1 \<and>
   clock (snd (request \<lparr>maxRetries = 23, retryDelay = 1000\<rparr> unreachable_server probe
          (fresh_world default_config 0 :: api_response world))) = 1000 * (2 ^ 22 - 1) + 1 \<and>
   (1000 * (2 ^ 22 - 1) + 1 :: int) < 1000 * 2 ^ 22"
  by (simp add: request_def request_loop.simps client_request_def settle_def sent_count_def
        fresh_world_def probe_def timer_delay_def
        http_request.truncate_def delay_def shouldRetry_def is_sent_def unreachable_server_def)

section \<open>Properties of the executor\<close>

lemma processParam_agree:
  "as1 (param_name p) = as2 (param_name p) \<Longrightarrow> processParam rt as1 p = processParam rt as2 p"
  by (rule ext) (simp add: processParam_def property_def)

lemma fold_processParam_agree:
  assumes "\<forall>p \<in> set (tool_parameters tool). as1 (param_name p) = as2 (param_name p)"
  shows "fold (processParam rt as1) (tool_parameters tool) st =
         fold (processParam rt as2) (tool_parameters tool) st"
proof (rule fold_cong)
  fix p assume "p \<in> set (tool_parameters tool)"
  with assms show "processParam rt as1 p = processParam rt as2 p"
    by (intro processParam_agree) simp
qed simp_all

lemma missingParams_agree:
  "\<forall>p \<in> set (tool_parameters tool). as1 (param_name p) = as2 (param_name p) \<Longrightarrow>
   missingParams tool as1 = missingParams tool as2"
  unfolding missingParams_def
  by (rule arg_cong [where f = "map param_name"], rule filter_cong) (auto simp add: property_def)

lemma buildRequest_agree:
  assumes "\<forall>p \<in> set (tool_parameters tool). as1 (param_name p) = as2 (param_name p)"
  shows "buildRequest rt cfg tool as1 = buildRequest rt cfg tool as2"
  unfolding buildRequest_def fold_processParam_agree [OF assms] missingParams_agree [OF assms]
  by (rule refl)

lemma relevantArgs_agree:
  assumes "\<forall>p \<in> set (tool_parameters tool). as1 (param_name p) = as2 (param_name p)"
  shows "relevantArgs tool as1 = relevantArgs tool as2"
  unfolding relevantArgs_def using assms by (intro fold_cong) (auto simp add: property_def)

lemma buildCacheKey_agree:
  assumes "\<forall>p \<in> set (tool_parameters tool). as1 (param_name p) = as2 (param_name p)"
  shows "buildCacheKey rt tool as1 = buildCacheKey rt tool as2"
  using relevantArgs_agree [OF assms] by (simp add: buildCacheKey_def)

text \<open>
  Claim C10. Two argument maps that agree on every declared parameter name of a tool
  give the same built request (or the same failure to build it), the same cache key, and
  the same run of \<open>execute\<close> from any world: entries under other names have no effect.
\<close>

theorem undeclared_arguments_have_no_effect:
  assumes "\<forall>p \<in> set (tool_parameters tool). as1 (param_name p) = as2 (param_name p)"
  shows "buildRequest rt cfg tool as1 = buildRequest rt cfg tool as2 \<and>
         buildCacheKey rt tool as1 = buildCacheKey rt tool as2 \<and>
         execute rt cfg hc be tool as1 w = execute rt cfg hc be tool as2 w"
proof -
  have b: "buildRequest rt cfg tool as1 = buildRequest rt cfg tool as2"
    by (rule buildRequest_agree [OF assms])
  have k: "buildCacheKey rt tool as1 = buildCacheKey rt tool as2"
    by (rule buildCacheKey_agree [OF assms])
  have e: "execute rt cfg hc be tool as1 w = execute rt cfg hc be tool as2 w"
    unfolding execute_def b k by (rule refl)
  show ?thesis by (intro conjI b k e)
qed

theorem undeclared_arguments_have_no_effect_witness:
  "buildRequest example_runtime default_config getPetById [''id'' \<mapsto> JNum 7] =
     buildRequest example_runtime default_config getPetById
       [''id'' \<mapsto> JNum 7, ''verbose'' \<mapsto> JBool True] \<and>
   buildCacheKey example_runtime getPetById [''id'' \<mapsto> JNum 7] =
     buildCacheKey example_runtime getPetById [''id'' \<mapsto> JNum 7, ''verbose'' \<mapsto> JBool True] \<and>
   execute example_runtime default_config (new_http_client default_config) (always_status 200 0)
       getPetById [''id'' \<mapsto> JNum 7] (fresh_world default_config 0) =
     execute example_runtime default_config (new_http_client default_config) (always_status 200 0)
       getPetById [''id'' \<mapsto> JNum 7, ''verbose'' \<mapsto> JBool True] (fresh_world default_config 0)"
  using undeclared_arguments_have_no_effect
    [of getPetById "[''id'' \<mapsto> JNum 7]" "[''id'' \<mapsto> JNum 7, ''verbose'' \<mapsto> JBool True]"
        example_runtime default_config "new_http_client default_config" "always_status 200 0"
        "fresh_world default_config 0"]
  by (simp add: getPetById_def)

subsection \<open>The steps of one call\<close>

lemma buildCacheKey_get:
  "tool_method tool = ''get'' \<Longrightarrow>
   buildCacheKey rt tool as =
     Some (tool_name tool @ '':'' @ stringify rt (JObj (relevantArgs tool as)))"
  by (simp add: buildCacheKey_def)

lemma buildCacheKey_other: "tool_method tool \<noteq> ''get'' \<Longrightarrow> buildCacheKey rt tool as = None"
  by (simp add: buildCacheKey_def)

lemma buildCacheKey_Some:
  "buildCacheKey rt tool as = Some key \<Longrightarrow> tool_method tool = ''get'' \<and> key \<noteq> []"
  by (auto simp add: buildCacheKey_def split: if_splits)

lemma cache_lookup_None: "cache_lookup tool None w = (None, w)"
  by (simp add: cache_lookup_def)

lemma cache_lookup_key:
  "buildCacheKey rt tool as = Some key \<Longrightarrow>
   cache_lookup tool (Some key) w = world_cache_get key w"
  by (auto simp add: cache_lookup_def truthy_key_def dest: buildCacheKey_Some)

lemma world_cache_get_absent:
  "entries (store w) key = None \<Longrightarrow>
   world_cache_get key w = (None, w\<lparr>trace := trace w @ [CacheGet key]\<rparr>)"
  by (simp add: world_cache_get_def cache_get_absent)

lemma world_cache_get_expired:
  "entries (store w) key = Some e \<Longrightarrow> clock w - entry_timestamp e > entry_ttl e \<Longrightarrow>
   world_cache_get key w =
     (None, w\<lparr>store := (store w)\<lparr>entries := (entries (store w))(key := None)\<rparr>,
               trace := trace w @ [CacheGet key]\<rparr>)"
  by (simp add: world_cache_get_def cache_get_expired)

lemma world_cache_get_live:
  "entries (store w) key = Some e \<Longrightarrow> \<not> clock w - entry_timestamp e > entry_ttl e \<Longrightarrow>
   world_cache_get key w = (Some (entry_data e), w\<lparr>trace := trace w @ [CacheGet key]\<rparr>)"
  by (simp add: world_cache_get_def cache_get_live)

lemma cache_lookup_effect:
  "trace (snd (cache_lookup tool (buildCacheKey rt tool as) w)) =
     trace w @ (case buildCacheKey rt tool as of None \<Rightarrow> [] | Some key \<Rightarrow> [CacheGet key]) \<and>
   clock (snd (cache_lookup tool (buildCacheKey rt tool as) w)) = clock w \<and>
   sent_count (snd (cache_lookup tool (buildCacheKey rt tool as) w)) = sent_count w \<and>
   fst (cache_lookup tool (buildCacheKey rt tool as) w) =
     (case buildCacheKey rt tool as of
        None \<Rightarrow> None
      | Some key \<Rightarrow>
          (case entries (store w) key of
             None \<Rightarrow> None
           | Some e \<Rightarrow>
               if clock w - entry_timestamp e > entry_ttl e then None else Some (entry_data e)))"
proof (cases "buildCacheKey rt tool as")
  case None
  then show ?thesis by (simp add: cache_lookup_None)
next
  case (Some key)
  note lk = cache_lookup_key [OF Some]
  show ?thesis
  proof (cases "entries (store w) key")
    case None
    then show ?thesis using Some lk
      by (simp add: world_cache_get_absent sent_count_def is_sent_def)
  next
    case (Some e)
    then show ?thesis using \<open>buildCacheKey rt tool as = Some key\<close> lk
      by (cases "clock w - entry_timestamp e > entry_ttl e")
         (simp_all add: world_cache_get_expired world_cache_get_live
            sent_count_def is_sent_def)
  qed
qed

lemma execute_hit:
  "cache_lookup tool (buildCacheKey rt tool as) w = (Some cached, w1) \<Longrightarrow>
   execute rt cfg hc be tool as w = (Inr cached, w1)"
  by (simp add: execute_def)

lemma execute_build_failure:
  "cache_lookup tool (buildCacheKey rt tool as) w = (None, w1) \<Longrightarrow>
   buildRequest rt cfg tool as = Inl cause \<Longrightarrow>
   execute rt cfg hc be tool as w = (Inl (FailedToExecute (tool_name tool) cause), w1)"
  by (simp add: execute_def)

lemma execute_request_failure:
  "cache_lookup tool (buildCacheKey rt tool as) w = (None, w1) \<Longrightarrow>
   buildRequest rt cfg tool as = Inr parts \<Longrightarrow>
   request hc be (dispatch_config tool parts) w1 = (Inl err, w2) \<Longrightarrow>
   execute rt cfg hc be tool as w = (Inl (FailedToExecute (tool_name tool) (RequestFailed err)), w2)"
  by (simp add: execute_def)

lemma execute_response:
  "cache_lookup tool (buildCacheKey rt tool as) w = (None, w1) \<Longrightarrow>
   buildRequest rt cfg tool as = Inr parts \<Longrightarrow>
   request hc be (dispatch_config tool parts) w1 = (Inr response, w2) \<Longrightarrow>
   execute rt cfg hc be tool as w =
     (Inr response, cache_store tool (buildCacheKey rt tool as) response w2)"
  by (simp add: execute_def)

lemma buildRequest_missing:
  "missingParams tool as \<noteq> [] \<Longrightarrow>
   buildRequest rt cfg tool as = Inl (MissingRequiredParameters (missingParams tool as))"
  by (simp add: buildRequest_def)

lemma set_missingParams:
  "set (missingParams tool as) =
     {param_name p | p. p \<in> set (tool_parameters tool) \<and> param_required p \<and>
                        property as (param_name p) = None}"
  by (auto simp add: missingParams_def)

lemma missingParams_nonempty:
  "\<exists>p \<in> set (tool_parameters tool). param_required p \<and> property as (param_name p) = None \<Longrightarrow>
   missingParams tool as \<noteq> []"
  by (auto simp add: missingParams_def filter_empty_conv)

lemma property_own:
  "n \<notin> set inherited_names \<Longrightarrow> property as n = None \<longleftrightarrow> as n = None"
  by (simp add: property_def split: option.splits)

lemma request_events:
  "\<exists>evs. evs \<noteq> [] \<and> (\<forall>e \<in> set evs. (\<exists>r. e = Sent r) \<or> (\<exists>ms. e = Waited ms)) \<and>
         trace (snd (request hc be cfg w)) = trace w @ evs"
proof -
  from request_loop_trace [of 0 hc be cfg None w]
  obtain k where
    tr: "trace (snd (request hc be cfg w)) =
       trace w @ (concat (map (\<lambda>i. [Sent (http_request.truncate cfg), Waited (retryDelay hc * 2 ^ i)])
                     [0..<k]) @ [Sent (http_request.truncate cfg)])"
    by (auto simp add: request_def)
  show ?thesis
    by (rule exI [of _ "concat (map (\<lambda>i. [Sent (http_request.truncate cfg),
                                          Waited (retryDelay hc * 2 ^ i)]) [0..<k])
                        @ [Sent (http_request.truncate cfg)]"])
       (auto simp add: tr)
qed

lemma request_store: "store (snd (request hc be cfg w)) = store w"
  by (simp add: request_def request_loop_store)

lemma cache_store_trace:
  "trace (cache_store tool (buildCacheKey rt tool as) response w) =
     trace w @ (case buildCacheKey rt tool as of
                  None \<Rightarrow> []
                | Some key \<Rightarrow>
                    if 200 \<le> status response \<and> status response < 300 then [CacheSet key] else [])"
  by (cases "buildCacheKey rt tool as")
     (auto simp add: cache_store_def world_cache_set_def truthy_key_def dest: buildCacheKey_Some)

lemma cache_lookup_store:
  "fst (cache_lookup tool (buildCacheKey rt tool as) w) = None \<Longrightarrow>
   defaultTTL (store (snd (cache_lookup tool (buildCacheKey rt tool as) w))) = defaultTTL (store w)"
  by (cases "buildCacheKey rt tool as")
     (auto simp add: cache_lookup_None cache_lookup_key world_cache_get_def cache_get_def
        split: option.splits if_splits)

lemma cache_lookup_hit_store:
  "cache_lookup tool (buildCacheKey rt tool as) w = (Some cached, w1) \<Longrightarrow>
   \<exists>key e. buildCacheKey rt tool as = Some key \<and> entries (store w1) key = Some e \<and>
           entry_data e = cached \<and> \<not> clock w - entry_timestamp e > entry_ttl e"
  by (cases "buildCacheKey rt tool as")
     (auto simp add: cache_lookup_None cache_lookup_key world_cache_get_def cache_get_def
        isExpired_def split: option.splits if_splits)

lemma execute_served_from_cache:
  assumes key: "buildCacheKey rt tool as = Some key"
      and e: "entries (store w) key = Some e"
      and live: "\<not> clock w - entry_timestamp e > entry_ttl e"
  shows "execute rt cfg hc be tool as w =
           (Inr (entry_data e), w\<lparr>trace := trace w @ [CacheGet key]\<rparr>)"
proof -
  have "cache_lookup tool (buildCacheKey rt tool as) w =
          (Some (entry_data e), w\<lparr>trace := trace w @ [CacheGet key]\<rparr>)"
    using key e live by (simp add: cache_lookup_key world_cache_get_live)
  then show ?thesis by (rule execute_hit)
qed

lemma execute_caches_success:
  assumes get: "tool_method tool = ''get''"
      and first: "execute rt cfg hc be tool as w = (Inr r, w1)"
      and ok: "200 \<le> status r" "status r < 300"
  shows "\<exists>key e. buildCacheKey rt tool as = Some key \<and> entries (store w1) key = Some e \<and>
           entry_data e = r \<and>
           (fst (cache_lookup tool (buildCacheKey rt tool as) w) = None \<longrightarrow>
              entry_timestamp e = clock w1 \<and> entry_ttl e = defaultTTL (store w))"
proof -
  let ?ck = "buildCacheKey rt tool as"
  obtain key where key: "?ck = Some key" using get by (simp add: buildCacheKey_get)
  obtain c w0 where cl: "cache_lookup tool ?ck w = (c, w0)"
    by (cases "cache_lookup tool ?ck w")
  show ?thesis
  proof (cases c)
    case (Some cached)
    from execute_hit [OF cl [unfolded Some], of cfg hc be] first
    have "cached = r" "w0 = w1" by simp_all
    with cache_lookup_hit_store [OF cl [unfolded Some]] key cl Some
    show ?thesis by auto
  next
    case None
    note miss = cl [unfolded None]
    have d0: "defaultTTL (store w0) = defaultTTL (store w)"
      using cache_lookup_store [of tool rt as w] cl None by simp
    show ?thesis
    proof (cases "buildRequest rt cfg tool as")
      case (Inl cause)
      from execute_build_failure [OF miss Inl, of hc be] first show ?thesis by simp
    next
      case (Inr parts)
      obtain res w2 where rq: "request hc be (dispatch_config tool parts) w0 = (res, w2)"
        by (cases "request hc be (dispatch_config tool parts) w0")
      have s2: "store w2 = store w0"
        using request_store [of hc be "dispatch_config tool parts" w0] rq by simp
      show ?thesis
      proof (cases res)
        case (Inl err)
        from execute_request_failure [OF miss Inr rq [unfolded Inl]] first show ?thesis by simp
      next
        case (Inr response)
        from execute_response [OF miss \<open>buildRequest rt cfg tool as = Inr parts\<close> rq [unfolded Inr]]
             first
        have rr: "response = r" and w1: "w1 = cache_store tool ?ck r w2" by simp_all
        have "w1 = world_cache_set key r w2"
          using w1 key get ok buildCacheKey_Some [OF key]
          by (simp add: cache_store_def truthy_key_def)
        then show ?thesis
          using key cl None s2 d0
          by (simp add: world_cache_set_def cache_set_def effective_ttl_def)
      qed
    qed
  qed
qed

text \<open>The definitions that a run on concrete inputs unfolds.\<close>

lemmas ev_http = request_def request_loop.simps client_request_def settle_def status_accepted_def
  always_status_def plain_response_def sent_count_def fresh_world_def new_http_client_def
  default_config_def http_request.truncate_def delay_def shouldRetry_def is_sent_def
  unreachable_server_def dispatch_config_def

lemmas ev_exec = execute_def cache_lookup_def cache_store_def world_cache_get_def
  world_cache_set_def cache_get_def cache_set_def isExpired_def effective_ttl_def new_cache_def
  truthy_key_def buildCacheKey_def relevantArgs_def buildRequest_def missingParams_def
  processParam_def example_runtime_def json_quote_def toLowerCase_def lower_char_def
  encodeURIComponent_def encode_byte_def unreserved_def digit_char_def number_String_def
  isInteger_def int_toString_def digits.simps property_def inherited_names_def
  inherited_value_def is_function_def assign_def

lemma getReport_key:
  "buildCacheKey example_runtime getReport as = Some ''getReport:{}''"
  by (simp add: ev_exec ev_http getReport_def)

lemma getReport_fresh_lookup:
  "fst (cache_lookup getReport (Some ''getReport:{}'') (fresh_world default_config 0)) = None"
  by (simp add: ev_exec ev_http getReport_def)

lemma getReport_build:
  "buildRequest example_runtime default_config getReport [''X-Tenant'' \<mapsto> JStr ''acme''] =
     Inr \<lparr>url = ''https://petstore3.swagger.io/api/v3/report'', queryParams = [],
          headers = [(''Accept'', JStr ''application/json''),
                     (''Content-Type'', JStr ''application/json''),
                     (''X-Tenant'', JStr ''acme'')],
          body = None\<rparr>"
  by (simp add: ev_exec ev_http getReport_def)

lemma getReport_first_call:
  "fst (execute example_runtime default_config (new_http_client default_config)
          (always_status 200 10) getReport [''X-Tenant'' \<mapsto> JStr ''acme'']
          (fresh_world default_config 0)) = Inr (plain_response 200)"
  by (simp add: ev_exec ev_http getReport_def)

lemma status_plain_response: "status (plain_response s) = s"
  by (simp add: plain_response_def)

lemma trace_fresh_world: "trace (fresh_world cfg now) = []"
  by (simp add: fresh_world_def)

lemma getPetById_first_call:
  "fst (execute example_runtime default_config (new_http_client default_config)
     (always_status 200 10) getPetById [''id'' \<mapsto> JNum 7] (fresh_world default_config 0)) =
     Inr (plain_response 200) \<and>
   clock (snd (execute example_runtime default_config (new_http_client default_config)
     (always_status 200 10) getPetById [''id'' \<mapsto> JNum 7] (fresh_world default_config 0))) = 10 \<and>
   sent_count (snd (execute example_runtime default_config (new_http_client default_config)
     (always_status 200 10) getPetById [''id'' \<mapsto> JNum 7] (fresh_world default_config 0))) = 1"
  by (simp add: ev_exec ev_http getPetById_def)

lemma getPetById_fresh_lookup:
  "fst (cache_lookup getPetById (buildCacheKey example_runtime getPetById [''id'' \<mapsto> JNum 7])
          (fresh_world default_config 0)) = None \<and>
   defaultTTL (store (fresh_world default_config 0 :: api_response world)) = 300000"
  by (simp add: ev_exec ev_http getPetById_def)

subsection \<open>Missing required parameters\<close>

text \<open>
  Claim C1, as the code has it. Let no required parameter of the tool bear a name that
  every object inherits from \<open>Object.prototype\<close> (\<open>constructor\<close>, \<open>toString\<close>, ...), and
  let at least one required parameter of the tool have no argument. Then no request is
  sent, and the call fails with the error whose message is
  \<open>Failed to execute NAME: Missing required parameters: ...\<close>, listing all the required
  parameter names without an argument (as a set, exactly those), unless the tool is a GET
  and the cache holds an unexpired entry under the key of the call: the cache is read
  before the arguments are checked, and then the cached response is returned.
\<close>

theorem execute_with_missing_required_parameters:
  assumes "\<forall>p \<in> set (tool_parameters tool).
             param_required p \<longrightarrow> param_name p \<notin> set inherited_names"
      and "\<exists>p \<in> set (tool_parameters tool). param_required p \<and> as (param_name p) = None"
  shows "set (missingParams tool as) =
           {param_name p | p. p \<in> set (tool_parameters tool) \<and> param_required p \<and>
                              as (param_name p) = None} \<and>
         sent_count (snd (execute rt cfg hc be tool as w)) = sent_count w \<and>
         fst (execute rt cfg hc be tool as w) =
           (case (if tool_method tool = ''get''
                  then entries (store w)
                         (tool_name tool @ '':'' @ stringify rt (JObj (relevantArgs tool as)))
                  else None) of
              None \<Rightarrow>
                Inl (FailedToExecute (tool_name tool)
                       (MissingRequiredParameters (missingParams tool as)))
            | Some e \<Rightarrow>
                if clock w - entry_timestamp e > entry_ttl e
                then Inl (FailedToExecute (tool_name tool)
                            (MissingRequiredParameters (missingParams tool as)))
                else Inr (entry_data e)) \<and>
         execute_error_message
           (FailedToExecute (tool_name tool) (MissingRequiredParameters (missingParams tool as))) =
           Some (''Failed to execute '' @ tool_name tool @ '': Missing required parameters: ''
                 @ join '', '' (missingParams tool as))"
proof -
  let ?ck = "buildCacheKey rt tool as"
  let ?failure = "Inl (FailedToExecute (tool_name tool)
                        (MissingRequiredParameters (missingParams tool as)))
                  :: execute_error + api_response"
  obtain r w1 where cl: "cache_lookup tool ?ck w = (r, w1)"
    by (cases "cache_lookup tool ?ck w")
  note eff = cache_lookup_effect [of tool rt as w]
  have own: "property as (param_name p) = None \<longleftrightarrow> as (param_name p) = None"
    if "p \<in> set (tool_parameters tool)" "param_required p" for p
    using assms(1) that by (intro property_own) simp
  from assms(2) obtain p where
    p: "p \<in> set (tool_parameters tool)" "param_required p" "as (param_name p) = None"
    by (elim bexE conjE)
  have missing: "\<exists>p \<in> set (tool_parameters tool).
                   param_required p \<and> property as (param_name p) = None"
    using p own [OF p(1,2)] by (intro bexI [of _ p]) simp_all
  have names: "set (missingParams tool as) =
           {param_name p | p. p \<in> set (tool_parameters tool) \<and> param_required p \<and>
                              as (param_name p) = None}"
    unfolding set_missingParams using own by auto
  have br: "buildRequest rt cfg tool as = Inl (MissingRequiredParameters (missingParams tool as))"
    using missing by (intro buildRequest_missing missingParams_nonempty)
  have ex: "execute rt cfg hc be tool as w = ((case r of None \<Rightarrow> ?failure | Some c \<Rightarrow> Inr c), w1)"
    using cl br by (cases r) (simp_all add: execute_hit execute_build_failure)
  have sent: "sent_count (snd (execute rt cfg hc be tool as w)) = sent_count w"
    using ex eff cl by simp
  have r: "r = (case ?ck of
        None \<Rightarrow> None
      | Some key \<Rightarrow>
          (case entries (store w) key of
             None \<Rightarrow> None
           | Some e \<Rightarrow>
               if clock w - entry_timestamp e > entry_ttl e then None else Some (entry_data e)))"
    using eff cl by simp
  have res: "fst (execute rt cfg hc be tool as w) =
           (case (if tool_method tool = ''get''
                  then entries (store w)
                         (tool_name tool @ '':'' @ stringify rt (JObj (relevantArgs tool as)))
                  else None) of
              None \<Rightarrow> ?failure
            | Some e \<Rightarrow>
                if clock w - entry_timestamp e > entry_ttl e then ?failure
                else Inr (entry_data e))"
    unfolding ex r
    by (cases "tool_method tool = ''get''")
       (simp_all add: buildCacheKey_get buildCacheKey_other split: option.splits)
  show ?thesis
    using names sent res by simp
qed

theorem execute_with_missing_required_parameters_witness:
  "fst (execute example_runtime default_config (new_http_client default_config)
          (always_status 200 10) getOrderItem Map.empty (fresh_world default_config 0)) =
     Inl (FailedToExecute ''getOrderItem''
            (MissingRequiredParameters [''orderId'', ''itemId''])) \<and>
   sent_count (snd (execute example_runtime default_config (new_http_client default_config)
          (always_status 200 10) getOrderItem Map.empty (fresh_world default_config 0))) = 0 \<and>
   execute_error_message
     (FailedToExecute ''getOrderItem'' (MissingRequiredParameters [''orderId'', ''itemId''])) =
     Some ''Failed to execute getOrderItem: Missing required parameters: orderId, itemId''"
  using execute_with_missing_required_parameters
    [where tool = getOrderItem and as = Map.empty and rt = example_runtime
       and cfg = default_config and hc = "new_http_client default_config"
       and be = "always_status 200 10" and w = "fresh_world default_config 0"]
  by (simp add: getOrderItem_def missingParams_def fresh_world_def new_cache_def sent_count_def
        property_def inherited_names_def)

text \<open>
  Against C1 as stated: the key of a call leaves out header parameters. After a call of
  \<open>getReport\<close> with its required header, answered with 200, the next call without the
  header returns the cached response instead of failing. And a required parameter named
  \<open>constructor\<close> is never missing: with no argument at all, \<open>args[p.name]\<close> is the
  inherited function, nothing is reported, and the request is sent.
\<close>

theorem cached_response_despite_missing_header_counterexample:
  "missingParams getReport Map.empty = [''X-Tenant''] \<and>
   fst (execute example_runtime default_config (new_http_client default_config)
          (always_status 200 10) getReport Map.empty
          (snd (execute example_runtime default_config (new_http_client default_config)
                  (always_status 200 10) getReport [''X-Tenant'' \<mapsto> JStr ''acme'']
                  (fresh_world default_config 0)))) =
     Inr (plain_response 200) \<and>
   param_required (hd (tool_parameters findByConstructor)) \<and>
   (Map.empty :: args) (param_name (hd (tool_parameters findByConstructor))) = None \<and>
   missingParams findByConstructor Map.empty = [] \<and>
   fst (execute example_runtime default_config (new_http_client default_config)
          (always_status 200 10) findByConstructor Map.empty (fresh_world default_config 0)) =
     Inr (plain_response 200) \<and>
   sent_count (snd (execute example_runtime default_config (new_http_client default_config)
          (always_status 200 10) findByConstructor Map.empty (fresh_world default_config 0))) = 1"
  by (simp add: ev_exec ev_http getReport_def findByConstructor_def)

subsection \<open>The order of the steps\<close>

text \<open>
  Claim C3, as the code has it. A call reads the cache first (GET tools only); on a hit it
  returns the cached response and does nothing else. On a miss it checks the required
  parameters and builds the request; if that fails, the error is returned with the cache
  read already done. Otherwise it dispatches (requests and waits only), then stores the
  response (GET tools, status in \<open>[200,300)\<close>), then returns it. The events of a call
  are in this order: cache read, dispatch, cache write.
\<close>

theorem execute_pipeline_order:
  "(case fst (cache_lookup tool (buildCacheKey rt tool as) w) of
      Some cached \<Rightarrow>
        fst (execute rt cfg hc be tool as w) = Inr cached \<and>
        trace (snd (execute rt cfg hc be tool as w)) =
          trace w @ (case buildCacheKey rt tool as of None \<Rightarrow> [] | Some key \<Rightarrow> [CacheGet key])
    | None \<Rightarrow>
        (case buildRequest rt cfg tool as of
           Inl cause \<Rightarrow>
             fst (execute rt cfg hc be tool as w) = Inl (FailedToExecute (tool_name tool) cause) \<and>
             trace (snd (execute rt cfg hc be tool as w)) =
               trace w @ (case buildCacheKey rt tool as of None \<Rightarrow> [] | Some key \<Rightarrow> [CacheGet key])
         | Inr parts \<Rightarrow>
             (\<exists>dispatch. dispatch \<noteq> [] \<and>
                (\<forall>e \<in> set dispatch. (\<exists>r. e = Sent r) \<or> (\<exists>ms. e = Waited ms)) \<and>
                trace (snd (execute rt cfg hc be tool as w)) =
                  trace w
                  @ (case buildCacheKey rt tool as of None \<Rightarrow> [] | Some key \<Rightarrow> [CacheGet key])
                  @ dispatch
                  @ (case fst (execute rt cfg hc be tool as w) of
                       Inl err \<Rightarrow> []
                     | Inr response \<Rightarrow>
                         (case buildCacheKey rt tool as of
                            None \<Rightarrow> []
                          | Some key \<Rightarrow>
                              if 200 \<le> status response \<and> status response < 300
                              then [CacheSet key] else [])))))"
proof -
  let ?ck = "buildCacheKey rt tool as"
  obtain c w1 where cl: "cache_lookup tool ?ck w = (c, w1)"
    by (cases "cache_lookup tool ?ck w")
  have t1: "trace w1 = trace w @ (case ?ck of None \<Rightarrow> [] | Some key \<Rightarrow> [CacheGet key])"
    using cache_lookup_effect [of tool rt as w] cl by simp
  show ?thesis
  proof (cases c)
    case (Some cached)
    then show ?thesis using cl t1 execute_hit [of tool rt as w cached w1 cfg hc be] by simp
  next
    case None
    note miss = cl [unfolded None]
    show ?thesis
    proof (cases "buildRequest rt cfg tool as")
      case (Inl cause)
      then show ?thesis
        using cl None t1 execute_build_failure [OF miss Inl, of hc be] by simp
    next
      case (Inr parts)
      obtain res w2 where rq: "request hc be (dispatch_config tool parts) w1 = (res, w2)"
        by (cases "request hc be (dispatch_config tool parts) w1")
      from request_events [of hc be "dispatch_config tool parts" w1] rq
      obtain evs where evs: "evs \<noteq> []"
        "\<forall>e \<in> set evs. (\<exists>r. e = Sent r) \<or> (\<exists>ms. e = Waited ms)"
        "trace w2 = trace w1 @ evs"
        by auto
      have "trace (snd (execute rt cfg hc be tool as w)) =
              trace w @ (case ?ck of None \<Rightarrow> [] | Some key \<Rightarrow> [CacheGet key]) @ evs
              @ (case fst (execute rt cfg hc be tool as w) of
                   Inl err \<Rightarrow> []
                 | Inr response \<Rightarrow>
                     (case ?ck of
                        None \<Rightarrow> []
                      | Some key \<Rightarrow>
                          if 200 \<le> status response \<and> status response < 300
                          then [CacheSet key] else []))"
      proof (cases res)
        case (Inl err)
        then show ?thesis
          using execute_request_failure [OF miss Inr rq [unfolded Inl]] evs(3) t1 by simp
      next
        case (Inr response)
        then show ?thesis
          using execute_response [OF miss \<open>buildRequest rt cfg tool as = Inr parts\<close> rq [unfolded Inr]]
                evs(3) t1 cache_store_trace [of tool rt as response w2]
          by simp
      qed
      with evs(1,2) have "\<exists>dispatch. dispatch \<noteq> [] \<and>
                (\<forall>e \<in> set dispatch. (\<exists>r. e = Sent r) \<or> (\<exists>ms. e = Waited ms)) \<and>
                trace (snd (execute rt cfg hc be tool as w)) =
                  trace w
                  @ (case ?ck of None \<Rightarrow> [] | Some key \<Rightarrow> [CacheGet key])
                  @ dispatch
                  @ (case fst (execute rt cfg hc be tool as w) of
                       Inl err \<Rightarrow> []
                     | Inr response \<Rightarrow>
                         (case ?ck of
                            None \<Rightarrow> []
                          | Some key \<Rightarrow>
                              if 200 \<le> status response \<and> status response < 300
                              then [CacheSet key] else []))"
        by blast
      then show ?thesis using cl None Inr by simp
    qed
  qed
qed

theorem execute_pipeline_order_witness:
  "\<exists>dispatch. dispatch \<noteq> [] \<and>
     (\<forall>e \<in> set dispatch. (\<exists>r. e = Sent r) \<or> (\<exists>ms. e = Waited ms)) \<and>
     trace (snd (execute example_runtime default_config (new_http_client default_config)
          (always_status 200 10) getReport [''X-Tenant'' \<mapsto> JStr ''acme'']
          (fresh_world default_config 0))) =
       [CacheGet ''getReport:{}''] @ dispatch @ [CacheSet ''getReport:{}'']"
  using execute_pipeline_order
    [where tool = getReport and as = "[''X-Tenant'' \<mapsto> JStr ''acme'']" and rt = example_runtime
       and cfg = default_config and hc = "new_http_client default_config"
       and be = "always_status 200 10" and w = "fresh_world default_config 0"]
  by (simp add: getReport_key getReport_fresh_lookup getReport_build getReport_first_call
        status_plain_response trace_fresh_world)

text \<open>
  Against C3 as stated: a call of \<open>getPetById\<close> without its \<open>id\<close> fails validation, and
  the cache has been read by then; and a call of \<open>getReport\<close> without its required header,
  on a cache that holds an unexpired entry under its key, returns that entry and is
  never validated.
\<close>

theorem lookup_precedes_validation_counterexample:
  "fst (execute example_runtime default_config (new_http_client default_config)
          (always_status 200 10) getPetById Map.empty (fresh_world default_config 0)) =
     Inl (FailedToExecute ''getPetById'' (MissingRequiredParameters [''id''])) \<and>
   trace (snd (execute example_runtime default_config (new_http_client default_config)
          (always_status 200 10) getPetById Map.empty (fresh_world default_config 0))) =
     [CacheGet ''getPetById:{}''] \<and>
   missingParams getReport Map.empty = [''X-Tenant''] \<and>
   execute example_runtime default_config (new_http_client default_config)
     (always_status 200 10) getReport Map.empty
     \<lparr>store = cache_set ''getReport:{}'' (plain_response 200) None 10 (new_cache (Some 300000)),
      clock = 20, trace = []\<rparr> =
     (Inr (plain_response 200),
      \<lparr>store = cache_set ''getReport:{}'' (plain_response 200) None 10 (new_cache (Some 300000)),
       clock = 20, trace = [CacheGet ''getReport:{}'']\<rparr>)"
  by (simp add: ev_exec ev_http getReport_def getPetById_def)

subsection \<open>Cached responses\<close>

text \<open>
  Claim C6, as the code has it. Let a call of a GET tool return a response with a status
  in \<open>[200,300)\<close>. Then the cache holds that response under the key of the call, and a
  second call with the same arguments, at any time within the TTL of that entry, returns
  the same response from the cache and sends no request, whatever the backend. When the
  first call was itself a miss, the entry is as old as the end of that call and its TTL
  is the default of the cache. (A first response outside \<open>[200,300)\<close> is not stored.)
\<close>

theorem repeated_get_is_served_from_cache:
  assumes get: "tool_method tool = ''get''"
      and first: "execute rt cfg hc be tool as w = (Inr r, w1)"
      and ok: "200 \<le> status r \<and> status r < 300"
  shows "(fst (cache_lookup tool (buildCacheKey rt tool as) w) = None \<longrightarrow>
            (\<forall>t2 cfg2 hc2 be2. t2 - clock w1 \<le> defaultTTL (store w) \<longrightarrow>
               fst (execute rt cfg2 hc2 be2 tool as (w1\<lparr>clock := t2\<rparr>)) = Inr r \<and>
               sent_count (snd (execute rt cfg2 hc2 be2 tool as (w1\<lparr>clock := t2\<rparr>))) =
                 sent_count w1)) \<and>
         (\<exists>e. entries (store w1)
                 (tool_name tool @ '':'' @ stringify rt (JObj (relevantArgs tool as))) = Some e \<and>
              entry_data e = r \<and>
              (\<forall>t2 cfg2 hc2 be2. t2 - entry_timestamp e \<le> entry_ttl e \<longrightarrow>
                 execute rt cfg2 hc2 be2 tool as (w1\<lparr>clock := t2\<rparr>) =
                   (Inr r,
                    w1\<lparr>clock := t2,
                       trace := trace w1 @ [CacheGet (tool_name tool @ '':''
                                  @ stringify rt (JObj (relevantArgs tool as)))]\<rparr>)))"
proof -
  let ?key = "tool_name tool @ '':'' @ stringify rt (JObj (relevantArgs tool as))"
  have key: "buildCacheKey rt tool as = Some ?key"
    using get by (rule buildCacheKey_get)
  from ok have "200 \<le> status r" "status r < 300" by simp_all
  from execute_caches_success [OF get first this] key
  obtain e where e: "entries (store w1) ?key = Some e" "entry_data e = r"
    and fresh: "fst (cache_lookup tool (buildCacheKey rt tool as) w) = None \<longrightarrow>
              entry_timestamp e = clock w1 \<and> entry_ttl e = defaultTTL (store w)"
    by auto
  have second: "execute rt cfg2 hc2 be2 tool as (w1\<lparr>clock := t2\<rparr>) =
                (Inr r, w1\<lparr>clock := t2, trace := trace w1 @ [CacheGet ?key]\<rparr>)"
    if "t2 - entry_timestamp e \<le> entry_ttl e" for t2 cfg2 hc2 be2
  proof -
    have "execute rt cfg2 hc2 be2 tool as (w1\<lparr>clock := t2\<rparr>) =
            (Inr (entry_data e),
             (w1\<lparr>clock := t2\<rparr>)\<lparr>trace := trace (w1\<lparr>clock := t2\<rparr>) @ [CacheGet ?key]\<rparr>)"
      using key e(1) that by (intro execute_served_from_cache) simp_all
    then show ?thesis using e(2) by simp
  qed
  have a: "fst (execute rt cfg2 hc2 be2 tool as (w1\<lparr>clock := t2\<rparr>)) = Inr r \<and>
           sent_count (snd (execute rt cfg2 hc2 be2 tool as (w1\<lparr>clock := t2\<rparr>))) =
             sent_count w1"
    if "fst (cache_lookup tool (buildCacheKey rt tool as) w) = None"
       "t2 - clock w1 \<le> defaultTTL (store w)" for t2 cfg2 hc2 be2
    using second [of t2 cfg2 hc2 be2] fresh that by (simp add: sent_count_def is_sent_def)
  have b: "\<exists>e. entries (store w1) ?key = Some e \<and> entry_data e = r \<and>
              (\<forall>t2 cfg2 hc2 be2. t2 - entry_timestamp e \<le> entry_ttl e \<longrightarrow>
                 execute rt cfg2 hc2 be2 tool as (w1\<lparr>clock := t2\<rparr>) =
                   (Inr r, w1\<lparr>clock := t2, trace := trace w1 @ [CacheGet ?key]\<rparr>))"
    using e second by (intro exI [of _ e]) simp
  show ?thesis
    using a b by (intro conjI impI allI) simp_all
qed

theorem repeated_get_is_served_from_cache_witness:
  "fst (execute example_runtime default_config (new_http_client default_config)
          unreachable_server getPetById [''id'' \<mapsto> JNum 7]
          ((snd (execute example_runtime default_config (new_http_client default_config)
                   (always_status 200 10) getPetById [''id'' \<mapsto> JNum 7]
                   (fresh_world default_config 0)))\<lparr>clock := 300010\<rparr>)) =
     Inr (plain_response 200) \<and>
   sent_count
     (snd (execute example_runtime default_config (new_http_client default_config)
          unreachable_server getPetById [''id'' \<mapsto> JNum 7]
          ((snd (execute example_runtime default_config (new_http_client default_config)
                   (always_status 200 10) getPetById [''id'' \<mapsto> JNum 7]
                   (fresh_world default_config 0)))\<lparr>clock := 300010\<rparr>))) = 1"
proof -
  let ?first = "execute example_runtime default_config (new_http_client default_config)
                  (always_status 200 10) getPetById [''id'' \<mapsto> JNum 7]
                  (fresh_world default_config 0)"
  have get: "tool_method getPetById = ''get''" by (simp add: getPetById_def)
  have first: "?first = (Inr (plain_response 200), snd ?first)"
    using getPetById_first_call by (intro prod_eqI) simp_all
  have ok: "200 \<le> status (plain_response 200) \<and> status (plain_response 200) < 300"
    by (simp add: plain_response_def)
  have miss: "fst (cache_lookup getPetById
                     (buildCacheKey example_runtime getPetById [''id'' \<mapsto> JNum 7])
                     (fresh_world default_config 0)) = None"
    using getPetById_fresh_lookup by simp
  have window: "300010 - clock (snd ?first) \<le>
                defaultTTL (store (fresh_world default_config 0 :: api_response world))"
    using getPetById_first_call getPetById_fresh_lookup by simp
  note again = repeated_get_is_served_from_cache
                 [OF get first ok, THEN conjunct1, rule_format, OF miss window]
  from again [of default_config "new_http_client default_config" unreachable_server]
  show ?thesis using getPetById_first_call by simp
qed

text \<open>
  Against C6 as stated: a backend that answers 404 is asked twice by two consecutive
  calls of a GET tool with the same arguments.
\<close>

theorem uncached_404_is_requested_twice_counterexample:
  "fst (execute example_runtime default_config (new_http_client default_config)
          (always_status 404 10) getPetById [''id'' \<mapsto> JNum 7] (fresh_world default_config 0)) =
     Inr (plain_response 404) \<and>
   sent_count
     (snd (execute example_runtime default_config (new_http_client default_config)
          (always_status 404 10) getPetById [''id'' \<mapsto> JNum 7]
          (snd (execute example_runtime default_config (new_http_client default_config)
                  (always_status 404 10) getPetById [''id'' \<mapsto> JNum 7]
                  (fresh_world default_config 0))))) = 2"
  by (simp add: ev_exec ev_http getPetById_def)

section \<open>Properties of the catalog builder\<close>

lemma replace_first_after_base:
  "CHR ''{'' \<notin> set base \<Longrightarrow>
   replace_first (base @ s) (CHR ''{'' # pat) rep = base @ replace_first s (CHR ''{'' # pat) rep"
  by (induction base) auto

lemma match_tokens_after_base:
  "CHR ''{'' \<notin> set base \<Longrightarrow> match_tokens (base @ s) = match_tokens s"
  by (induction base) auto

lemma number_String_seven: "number_String rt 7 = ''7''"
  by (simp add: number_String_def isInteger_def int_toString_def digits.simps digit_char_def)

lemma single_get_tools:
  assumes "paths doc = Some [(''/pet/{id}'', Some pathItem)]"
      and "item_get pathItem = Some operation" "item_post pathItem = None"
          "item_put pathItem = None" "item_delete pathItem = None" "item_patch pathItem = None"
  shows "apiTools (generateToolsFromSpec \<lparr>openApiSpec = Some doc, apiTools = old\<rparr>) =
           [(or_else (operationId operation) (''get_'' @ sanitize ''/pet/{id}''),
             \<lparr>tool_name = or_else (operationId operation) (''get_'' @ sanitize ''/pet/{id}''),
              tool_description =
                or_else (summary operation) (or_else (op_description operation) ''GET /pet/{id}''),
              tool_method = ''get'',
              tool_path = ''/pet/{id}'',
              tool_parameters = declaredParameters doc operation @ bodyParameter operation\<rparr>)]"
  using assms
  by (simp add: generateToolsFromSpec_def addPath_def methods_def addOperation_def
        item_operation_def createToolFromOperation_def toUpperCase_def upper_char_def)

lemma pet_document_tools:
  "apiTools (generateToolsFromSpec \<lparr>openApiSpec = Some pet_document, apiTools = []\<rparr>) =
     [(''getPetById'', getPetById)]"
  by (simp add: generateToolsFromSpec_def addPath_def methods_def addOperation_def
        item_operation_def createToolFromOperation_def declaredParameters_def bodyParameter_def
        toolParameter_def or_else_def schema_type_of_def typed_schema_def empty_schema_fields_def
        pet_document_def pet_path_item_def pet_operation_def pet_parameter_def getPetById_def)

lemma prefix_id_token: "prefix (n @ ''}'') ''id}'' \<longleftrightarrow> n = ''id''"
  by (auto simp add: prefix_Cons append_eq_Cons_conv split: list.splits)

lemma replace_first_no_brace:
  "CHR ''{'' \<notin> set s \<Longrightarrow> replace_first s (CHR ''{'' # pat) rep = s"
  by (induction s) auto

lemma replace_id_token:
  "CHR ''{'' \<notin> set base \<Longrightarrow>
   replace_first (base @ ''/api/v3/pet/{id}'') (CHR ''{'' # n @ ''}'') rep =
     (if n = ''id'' then base @ ''/api/v3/pet/'' @ rep else base @ ''/api/v3/pet/{id}'')"
  using prefix_id_token [of n]
  by (simp add: replace_first_after_base)

lemma encoded_seven: "encodeURIComponent (js_String rt (JNum 7)) = ''7''"
  by (simp add: number_String_seven encodeURIComponent_def encode_byte_def unreserved_def)

lemma property_given: "as n = Some v \<Longrightarrow> property as n = Some v"
  by (simp add: property_def)

text \<open>
  One parameter, on parts whose URL still has the token of \<open>id\<close> or has had it replaced:
  a path parameter named \<open>id\<close> replaces the token, every other parameter leaves the URL.
\<close>

lemma processParam_url:
  assumes base: "CHR ''{'' \<notin> set base"
      and seven: "as ''id'' = Some (JNum 7)"
      and st: "url st = base @ ''/api/v3/pet/{id}'' \<or> url st = base @ ''/api/v3/pet/7''"
  shows "url (processParam rt as p st) =
           (if param_name p = ''id'' \<and> param_location p = Path then base @ ''/api/v3/pet/7''
            else url st)"
proof (cases "property as (param_name p)")
  case None
  then have "param_name p \<noteq> ''id''"
    using property_given [of as "''id''" "JNum 7"] seven by auto
  with None show ?thesis by (simp add: processParam_def)
next
  case (Some v)
  show ?thesis
  proof (cases "param_location p = Path")
    case False
    with Some show ?thesis by (cases "param_location p") (simp_all add: processParam_def)
  next
    case True
    let ?rep = "encodeURIComponent (js_String rt v)"
    have u: "url (processParam rt as p st) =
               replace_first (url st) (CHR ''{'' # param_name p @ ''}'') ?rep"
      using Some True by (simp add: processParam_def)
    have replaced: "replace_first (base @ ''/api/v3/pet/7'') (CHR ''{'' # param_name p @ ''}'') ?rep =
                    base @ ''/api/v3/pet/7''"
      using base replace_first_no_brace [of "base @ ''/api/v3/pet/7''"] by simp
    show ?thesis
    proof (cases "param_name p = ''id''")
      case named: True
      then have "v = JNum 7"
        using Some property_given [of as "''id''" "JNum 7"] seven by simp
      then have "?rep = ''7''" by (simp only: encoded_seven)
      then have "replace_first (base @ ''/api/v3/pet/{id}'') (CHR ''{'' # param_name p @ ''}'') ?rep =
                 base @ ''/api/v3/pet/7''"
        using replace_id_token [OF base, of "param_name p" ?rep] named by simp
      with st replaced u True named show ?thesis by auto
    next
      case other: False
      then have "replace_first (base @ ''/api/v3/pet/{id}'') (CHR ''{'' # param_name p @ ''}'') ?rep =
                 base @ ''/api/v3/pet/{id}''"
        using replace_id_token [OF base, of "param_name p" ?rep] by simp
      with st replaced u other show ?thesis by auto
    qed
  qed
qed

lemma fold_processParam_url:
  assumes base: "CHR ''{'' \<notin> set base"
      and seven: "as ''id'' = Some (JNum 7)"
  shows "url st = base @ ''/api/v3/pet/{id}'' \<or> url st = base @ ''/api/v3/pet/7'' \<Longrightarrow>
         url (fold (processParam rt as) ps st) =
           (if \<exists>p \<in> set ps. param_name p = ''id'' \<and> param_location p = Path
            then base @ ''/api/v3/pet/7'' else url st)"
proof (induction ps arbitrary: st)
  case Nil
  then show ?case by simp
next
  case (Cons p ps)
  let ?st = "processParam rt as p st"
  note one = processParam_url [where as = as and base = base and st = st and rt = rt and p = p,
                               OF base seven Cons.prems]
  have "url ?st = base @ ''/api/v3/pet/{id}'' \<or> url ?st = base @ ''/api/v3/pet/7''"
    using one Cons.prems by (simp split: if_splits)
  from Cons.IH [OF this] one show ?case by auto
qed

lemma missingParams_id:
  "as ''id'' = Some v \<Longrightarrow>
   \<forall>p \<in> set (tool_parameters tool). param_required p \<longrightarrow> param_name p = ''id'' \<Longrightarrow>
   missingParams tool as = []"
  by (auto simp add: missingParams_def filter_empty_conv property_def)

text \<open>
  The request of a tool on the path \<open>/pet/{id}\<close> for the arguments \<open>{id: 7}\<close>, when the
  tool has a path parameter \<open>id\<close> and requires no other parameter.
\<close>

lemma buildRequest_pet:
  assumes base: "CHR ''{'' \<notin> set (petstoreApiBase cfg)"
      and path: "tool_path tool = ''/pet/{id}''"
      and id: "\<exists>p \<in> set (tool_parameters tool). param_name p = ''id'' \<and> param_location p = Path"
      and req: "\<forall>p \<in> set (tool_parameters tool). param_required p \<longrightarrow> param_name p = ''id''"
  shows "\<exists>parts. buildRequest rt cfg tool [''id'' \<mapsto> JNum 7] = Inr parts \<and>
                 url parts = petstoreApiBase cfg @ ''/api/v3/pet/7''"
proof -
  let ?init = "\<lparr>url = petstoreApiBase cfg @ ''/api/v3'' @ tool_path tool,
                 queryParams = [],
                 headers = [(''Accept'', JStr ''application/json''),
                            (''Content-Type'', JStr ''application/json'')],
                 body = None\<rparr>"
  let ?as = "[''id'' \<mapsto> JNum 7]"
  let ?st = "fold (processParam rt ?as) (tool_parameters tool) ?init"
  have seven: "?as ''id'' = Some (JNum 7)" by simp
  have "url ?init = petstoreApiBase cfg @ ''/api/v3/pet/{id}''"
    using path by simp
  then have u: "url ?st = petstoreApiBase cfg @ ''/api/v3/pet/7''"
    using fold_processParam_url
            [where as = ?as and base = "petstoreApiBase cfg" and st = ?init and rt = rt
               and ps = "tool_parameters tool", OF base seven] id
    by (simp del: fun_upd_apply)
  have "match_tokens (url ?st) = []"
    unfolding u using base by (simp add: match_tokens_after_base)
  then have "buildRequest rt cfg tool ?as = Inr ?st"
    using missingParams_id [where as = ?as and v = "JNum 7" and tool = tool, OF seven req]
    by (simp add: buildRequest_def del: fun_upd_apply)
  with u show ?thesis by (intro exI [of _ ?st]) simp
qed

lemma inline_parameters:
  "concat (map (\<lambda>param. case param of
                          ParameterObject po \<Rightarrow> [toolParameter po]
                        | ParameterRef ref \<Rightarrow>
                            (case resolveReference doc ref of
                               None \<Rightarrow> []
                             | Some po \<Rightarrow> [toolParameter po]))
             (map ParameterObject pos)) = map toolParameter pos"
  by (induction pos) simp_all

lemma declaredParameters_inline:
  "op_parameters operation = Some (map ParameterObject pos) \<Longrightarrow>
   declaredParameters doc operation = map toolParameter pos"
  using inline_parameters [of doc pos] by (simp add: declaredParameters_def)

lemma bodyParameter_required:
  assumes "p \<in> set (bodyParameter operation)" "param_required p"
  shows "\<exists>rb. requestBody operation = Some (RequestBodyObject rb) \<and> rb_required rb = Some True"
proof (cases "requestBody operation")
  case None
  with assms show ?thesis by (simp add: bodyParameter_def)
next
  case (Some e)
  show ?thesis
  proof (cases e)
    case (RequestBodyObject rb)
    with Some assms have "rb_required rb = Some True"
      by (auto simp add: bodyParameter_def split: option.splits)
    with Some RequestBodyObject show ?thesis by simp
  next
    case (RequestBodyRef r)
    with Some assms show ?thesis by (simp add: bodyParameter_def)
  qed
qed

text \<open>
  Claim C7, as the code has it. Take a document whose only path is \<open>/pet/{id}\<close>, with a
  \<open>get\<close> operation only, whose own \<open>parameters\<close> are given inline and declare the path
  parameter \<open>id\<close>, and which requires no other parameter and no request body. It yields a
  catalog of exactly one tool, whatever the catalog held before; building the request of
  that tool for the arguments \<open>{id: 7}\<close> succeeds, the URL is the base URL followed by
  \<open>/api/v3/pet/7\<close>, and no \<open>{token}\<close> is left in it. (The base URL of the configuration
  holds no opening brace.)
\<close>

theorem single_get_operation_round_trip:
  assumes "paths doc = Some [(''/pet/{id}'', Some pathItem)]"
      and "item_get pathItem = Some operation \<and> item_post pathItem = None \<and>
           item_put pathItem = None \<and> item_delete pathItem = None \<and> item_patch pathItem = None"
      and "op_parameters operation = Some (map ParameterObject pos)"
      and "\<exists>po \<in> set pos. po_name po = ''id'' \<and> po_in po = Path"
      and "\<forall>po \<in> set pos. po_required po = Some True \<longrightarrow> po_name po = ''id''"
      and "\<forall>rb. requestBody operation = Some (RequestBodyObject rb) \<longrightarrow>
                rb_required rb \<noteq> Some True"
      and "CHR ''{'' \<notin> set (petstoreApiBase cfg)"
  shows "\<exists>tool. apiTools (generateToolsFromSpec \<lparr>openApiSpec = Some doc, apiTools = old\<rparr>) =
                  [(tool_name tool, tool)] \<and>
               tool_method tool = ''get'' \<and> tool_path tool = ''/pet/{id}'' \<and>
               (\<exists>parts. buildRequest rt cfg tool [''id'' \<mapsto> JNum 7] = Inr parts \<and>
                        url parts = petstoreApiBase cfg @ ''/api/v3/pet/7'' \<and>
                        match_tokens (url parts) = [] \<and>
                        request_url (dispatch_config tool parts) =
                          petstoreApiBase cfg @ ''/api/v3/pet/7'')"
proof -
  let ?tool = "\<lparr>tool_name = or_else (operationId operation) (''get_'' @ sanitize ''/pet/{id}''),
              tool_description =
                or_else (summary operation) (or_else (op_description operation) ''GET /pet/{id}''),
              tool_method = ''get'',
              tool_path = ''/pet/{id}'',
              tool_parameters = declaredParameters doc operation @ bodyParameter operation\<rparr>"
  have tools: "apiTools (generateToolsFromSpec \<lparr>openApiSpec = Some doc, apiTools = old\<rparr>) =
                 [(tool_name ?tool, ?tool)]"
    using single_get_tools [of doc pathItem operation old] assms(1,2) by simp
  have ps: "tool_parameters ?tool = map toolParameter pos @ bodyParameter operation"
    using declaredParameters_inline [OF assms(3)] by simp
  from assms(4) obtain po where po: "po \<in> set pos" "po_name po = ''id''" "po_in po = Path"
    by (elim bexE conjE)
  have "toolParameter po \<in> set (tool_parameters ?tool)"
    using po(1) ps by simp
  moreover have "param_name (toolParameter po) = ''id''"
                "param_location (toolParameter po) = Path"
    using po(2,3) by (simp_all add: toolParameter_def)
  ultimately have id: "\<exists>p \<in> set (tool_parameters ?tool).
                         param_name p = ''id'' \<and> param_location p = Path"
    by (intro bexI [of _ "toolParameter po"]) simp_all
  have req: "\<forall>p \<in> set (tool_parameters ?tool). param_required p \<longrightarrow> param_name p = ''id''"
  proof (intro ballI impI)
    fix p assume p: "p \<in> set (tool_parameters ?tool)" "param_required p"
    from p(1) ps consider (declared) "p \<in> toolParameter ` set pos"
      | (body) "p \<in> set (bodyParameter operation)"
      by auto
    then show "param_name p = ''id''"
    proof cases
      case declared
      then obtain q where q: "q \<in> set pos" "p = toolParameter q" by (elim imageE)
      then have "po_required q = Some True"
        using p(2) by (simp add: toolParameter_def split: option.splits)
      with assms(5) q show ?thesis by (simp add: toolParameter_def)
    next
      case body
      from bodyParameter_required [OF this p(2)] assms(6) show ?thesis by auto
    qed
  qed
  from buildRequest_pet [OF assms(7) _ id req, of rt]
  obtain parts where parts: "buildRequest rt cfg ?tool [''id'' \<mapsto> JNum 7] = Inr parts"
                            "url parts = petstoreApiBase cfg @ ''/api/v3/pet/7''"
    by auto
  then show ?thesis
    using tools assms(7)
    by (intro exI [of _ ?tool]) (simp add: dispatch_config_def match_tokens_after_base)
qed

theorem single_get_operation_round_trip_witness:
  "(\<exists>tool. apiTools (generateToolsFromSpec \<lparr>openApiSpec = Some pet_document, apiTools = []\<rparr>) =
            [(tool_name tool, tool)] \<and>
          tool_method tool = ''get'' \<and> tool_path tool = ''/pet/{id}'' \<and>
          (\<exists>parts. buildRequest example_runtime default_config tool [''id'' \<mapsto> JNum 7] =
                     Inr parts \<and>
                   url parts = ''https://petstore3.swagger.io/api/v3/pet/7'' \<and>
                   match_tokens (url parts) = [] \<and>
                   request_url (dispatch_config tool parts) =
                     ''https://petstore3.swagger.io/api/v3/pet/7'')) \<and>
   apiTools (generateToolsFromSpec \<lparr>openApiSpec = Some pet_document, apiTools = []\<rparr>) =
     [(''getPetById'', getPetById)]"
  using single_get_operation_round_trip
          [of pet_document pet_path_item pet_operation "[pet_parameter]" default_config "[]"
              example_runtime]
        pet_document_tools
  by (simp add: pet_document_def pet_path_item_def pet_operation_def pet_parameter_def
        default_config_def)

text \<open>
  Against C7 as stated: in a document with the single operation \<open>GET /pet/{id}\<close> whose
  \<open>id\<close> is declared for the path item, the tool has no parameter, since the loader reads
  the \<open>parameters\<close> of the operation only; the call with \<open>{id: 7}\<close> sends nothing and
  fails with \<open>Unreplaced path parameters: {id}\<close>. And when the single operation also
  requires a query parameter, the request for \<open>{id: 7}\<close> is not built either.
\<close>

theorem path_level_parameter_counterexample:
  "apiTools (generateToolsFromSpec \<lparr>openApiSpec = Some pet_document_shared, apiTools = []\<rparr>) =
     [(''getPetById'', getPetById\<lparr>tool_parameters := []\<rparr>)] \<and>
   buildRequest example_runtime default_config (getPetById\<lparr>tool_parameters := []\<rparr>)
     [''id'' \<mapsto> JNum 7] = Inl (UnreplacedPathParameters [''{id}'']) \<and>
   fst (execute example_runtime default_config (new_http_client default_config)
          (always_status 200 10) (getPetById\<lparr>tool_parameters := []\<rparr>) [''id'' \<mapsto> JNum 7]
          (fresh_world default_config 0)) =
     Inl (FailedToExecute ''getPetById'' (UnreplacedPathParameters [''{id}''])) \<and>
   sent_count (snd (execute example_runtime default_config (new_http_client default_config)
          (always_status 200 10) (getPetById\<lparr>tool_parameters := []\<rparr>) [''id'' \<mapsto> JNum 7]
          (fresh_world default_config 0))) = 0 \<and>
   execute_error_message
     (FailedToExecute ''getPetById'' (UnreplacedPathParameters [''{id}''])) =
     Some ''Failed to execute getPetById: Unreplaced path parameters: {id}'' \<and>
   map fst (apiTools (generateToolsFromSpec
              \<lparr>openApiSpec = Some pet_document_strict, apiTools = []\<rparr>)) = [''getPetById''] \<and>
   map (\<lambda>t. buildRequest example_runtime default_config (snd t) [''id'' \<mapsto> JNum 7])
     (apiTools (generateToolsFromSpec \<lparr>openApiSpec = Some pet_document_strict, apiTools = []\<rparr>)) =
     [Inl (MissingRequiredParameters [''fields''])]"
  by (simp add: ev_exec ev_http getPetById_def generateToolsFromSpec_def addPath_def
        methods_def addOperation_def item_operation_def createToolFromOperation_def
        declaredParameters_def bodyParameter_def or_else_def pet_document_shared_def
        pet_path_item_shared_def pet_operation_def pet_document_strict_def pet_path_item_def
        pet_parameter_def toolParameter_def schema_type_of_def typed_schema_def
        empty_schema_fields_def)

section \<open>Properties of the schema validator\<close>

lemma validate_null_property:
  assumes "schema_type pf = Some ''object''"
      and "schema_required pf = None \<or> schema_required pf = Some [k]"
  shows "validate rt (Some (JObj [(k, JNull)]))
           (SchemaObject pf pitems (Some [(k, s)]) paddl) paramName =
         validate rt (Some JNull) s (paramName @ ''.'' @ k)"
proof -
  have present: "property (map_of [(k, JNull)]) k = Some JNull"
    by (simp add: property_def)
  have required: "(case schema_required pf of None \<Rightarrow> None
                   | Some qs \<Rightarrow> missing_required qs [(k, JNull)]) = None"
    using assms(2) present by auto
  have declared: "unexpected_properties (Some [(k, s)]) [(k, JNull)] = []"
    by (simp add: unexpected_properties_def)
  show ?thesis
    using assms(1) required present declared
    by (simp add: Let_def split: sum.splits cong del: option.case_cong_weak sum.case_cong_weak)
qed

text \<open>
  Claim C5, as the code has it. For an absent or \<open>null\<close> value, \<open>validate\<close> passes on a
  reference, and on a schema object it passes when \<open>nullable\<close> is \<open>true\<close> or the schema has
  no \<open>required\<close> member of its own (the list of the names of its required properties);
  otherwise it throws \<open>Parameter "NAME" is required\<close>. Whether the context requires the
  field is not consulted: the \<open>null\<close> property \<open>k\<close> of an object passes or fails by its own
  schema alike, whether the schema of the object lists \<open>k\<close> in its \<open>required\<close> or not.
\<close>

theorem validate_absent_or_null:
  assumes "v = None \<or> v = Some JNull"
  shows "validate rt v (ReferenceObject ref) paramName = Inr () \<and>
         validate rt v (SchemaObject f items props addl) paramName =
           (if nullable f = Some True \<or> schema_required f = None then Inr ()
            else Inl (IsRequired paramName)) \<and>
         validation_message rt (IsRequired paramName) =
           Some (''Parameter \"'' @ paramName @ ''\" is required'') \<and>
         (schema_type pf = Some ''object'' \<and>
          (schema_required pf = None \<or> schema_required pf = Some [k]) \<longrightarrow>
            validate rt (Some (JObj [(k, JNull)]))
              (SchemaObject pf pitems (Some [(k, SchemaObject f items props addl)]) paddl)
              paramName =
              (if nullable f = Some True \<or> schema_required f = None then Inr ()
               else Inl (IsRequired (paramName @ ''.'' @ k))))"
proof (intro conjI impI)
  show "validate rt v (ReferenceObject ref) paramName = Inr ()"
    by simp
  show "validate rt v (SchemaObject f items props addl) paramName =
           (if nullable f = Some True \<or> schema_required f = None then Inr ()
            else Inl (IsRequired paramName))"
    using assms by auto
  show "validation_message rt (IsRequired paramName) =
           Some (''Parameter \"'' @ paramName @ ''\" is required'')"
    by simp
next
  assume a: "schema_type pf = Some ''object'' \<and>
             (schema_required pf = None \<or> schema_required pf = Some [k])"
  then have "validate rt (Some (JObj [(k, JNull)]))
               (SchemaObject pf pitems (Some [(k, SchemaObject f items props addl)]) paddl)
               paramName =
             validate rt (Some JNull) (SchemaObject f items props addl) (paramName @ ''.'' @ k)"
    by (intro validate_null_property) simp_all
  then show "validate rt (Some (JObj [(k, JNull)]))
              (SchemaObject pf pitems (Some [(k, SchemaObject f items props addl)]) paddl)
              paramName =
              (if nullable f = Some True \<or> schema_required f = None then Inr ()
               else Inl (IsRequired (paramName @ ''.'' @ k)))"
    by simp
qed

theorem validate_absent_or_null_witness:
  "validate example_runtime (Some JNull)
     (SchemaObject (empty_schema_fields\<lparr>schema_type := Some ''string''\<rparr>) None None None)
     ''name'' = Inr () \<and>
   validate example_runtime None
     (SchemaObject (empty_schema_fields\<lparr>schema_type := Some ''object'',
                                         schema_required := Some [''id'']\<rparr>) None None None)
     ''body'' = Inl (IsRequired ''body'') \<and>
   validate example_runtime (Some JNull)
     (SchemaObject (empty_schema_fields\<lparr>schema_type := Some ''object'', nullable := Some True,
                                         schema_required := Some [''id'']\<rparr>) None None None)
     ''body'' = Inr () \<and>
   validation_message example_runtime (IsRequired ''body'') = Some ''Parameter \"body\" is required'' \<and>
   validate example_runtime (Some (JObj [(''name'', JNull)]))
     (SchemaObject (empty_schema_fields\<lparr>schema_type := Some ''object'',
                                         schema_required := Some [''name'']\<rparr>) None
        (Some [(''name'', SchemaObject (empty_schema_fields\<lparr>schema_type := Some ''string''\<rparr>)
                           None None None)]) None)
     ''body'' = Inr ()"
  using validate_absent_or_null
          [where v = "Some JNull" and rt = example_runtime and ref = "''#/components/schemas/Pet''"
             and paramName = "''name''"
             and f = "empty_schema_fields\<lparr>schema_type := Some ''string''\<rparr>"
             and items = None and props = None and addl = None
             and pf = "empty_schema_fields\<lparr>schema_type := Some ''object'',
                                           schema_required := Some [''name'']\<rparr>"
             and k = "''name''" and pitems = None and paddl = None]
        validate_absent_or_null
          [where v = "Some JNull" and rt = example_runtime and ref = "''#/components/schemas/Pet''"
             and paramName = "''body''"
             and f = "empty_schema_fields\<lparr>schema_type := Some ''string''\<rparr>"
             and items = None and props = None and addl = None
             and pf = "empty_schema_fields\<lparr>schema_type := Some ''object'',
                                           schema_required := Some [''name'']\<rparr>"
             and k = "''name''" and pitems = None and paddl = None]
        validate_absent_or_null
          [where v = None and rt = example_runtime and ref = "''#/components/schemas/Pet''"
             and paramName = "''body''"
             and f = "empty_schema_fields\<lparr>schema_type := Some ''object'',
                                          schema_required := Some [''id'']\<rparr>"
             and items = None and props = None and addl = None
             and pf = "empty_schema_fields\<lparr>schema_type := Some ''object''\<rparr>"
             and k = "''name''" and pitems = None and paddl = None]
        validate_absent_or_null
          [where v = "Some JNull" and rt = example_runtime and ref = "''#/components/schemas/Pet''"
             and paramName = "''body''"
             and f = "empty_schema_fields\<lparr>schema_type := Some ''object'', nullable := Some True,
                                          schema_required := Some [''id'']\<rparr>"
             and items = None and props = None and addl = None
             and pf = "empty_schema_fields\<lparr>schema_type := Some ''object''\<rparr>"
             and k = "''name''" and pitems = None and paddl = None]
  by (simp add: empty_schema_fields_def)

text \<open>
  Against C5 as stated: the property \<open>name\<close> is required by the schema of its object and
  is not nullable, and the object with \<open>name: null\<close> passes; the property \<open>tag\<close> is not
  required by the schema of its object, and the object with \<open>tag: null\<close> fails with
  \<open>Parameter "body.tag" is required\<close>, because the schema of \<open>tag\<close> itself lists a
  required property.
\<close>

theorem required_null_property_counterexample:
  "validate example_runtime (Some (JObj [(''name'', JNull)]))
     (SchemaObject (empty_schema_fields\<lparr>schema_type := Some ''object'',
                                         schema_required := Some [''name'']\<rparr>) None
        (Some [(''name'', typed_schema ''string'')]) None)
     ''body'' = Inr () \<and>
   validate example_runtime (Some (JObj [(''tag'', JNull)]))
     (SchemaObject (empty_schema_fields\<lparr>schema_type := Some ''object''\<rparr>) None
        (Some [(''tag'', SchemaObject (empty_schema_fields\<lparr>schema_type := Some ''object'',
                                                             schema_required := Some [''id'']\<rparr>)
                          None None None)]) None)
     ''body'' = Inl (IsRequired ''body.tag'') \<and>
   validation_message example_runtime (IsRequired ''body.tag'') =
     Some ''Parameter \"body.tag\" is required''"
  by (simp add: empty_schema_fields_def typed_schema_def property_def)

lemma validateString_enum:
  "schema_enum f = Some vs \<Longrightarrow> JStr s \<notin> set vs \<Longrightarrow>
   validateString rt s f paramName = Inl (MustBeOneOf paramName vs)"
  by (simp add: validateString_def)

lemma validateString_pattern:
  "schema_enum f = None \<or> (\<exists>vs. schema_enum f = Some vs \<and> JStr s \<in> set vs) \<Longrightarrow>
   pattern f = Some pat \<Longrightarrow> pat \<noteq> [] \<Longrightarrow> regexTest rt pat s = Some False \<Longrightarrow>
   validateString rt s f paramName = Inl (PatternMismatch paramName pat)"
  by (auto simp add: validateString_def)

lemma validate_string_schema:
  "schema_type f = Some ''string'' \<Longrightarrow>
   validate rt (Some (JStr s)) (SchemaObject f items props addl) paramName =
     validateString rt s f paramName"
  by simp

lemma unexpected_properties_nonempty:
  "\<exists>k \<in> fst ` set obj. k \<notin> fst ` set (case props of None \<Rightarrow> [] | Some ps \<Rightarrow> ps) \<Longrightarrow>
   length (unexpected_properties props obj) > 0"
  by (auto simp add: unexpected_properties_def filter_empty_conv)

lemma validate_object_schema:
  assumes "schema_type f = Some ''object''" and "addl = Some (Inl False)"
      and "\<exists>k \<in> fst ` set obj. k \<notin> fst ` set (case props of None \<Rightarrow> [] | Some ps \<Rightarrow> ps)"
  shows "validate rt (Some (JObj obj)) (SchemaObject f items props addl) paramName =
           (case (case schema_required f of None \<Rightarrow> None | Some qs \<Rightarrow> missing_required qs obj) of
              Some q \<Rightarrow> Inl (PropertyRequired q paramName)
            | None \<Rightarrow>
                (case (case props of None \<Rightarrow> Inr () | Some ps \<Rightarrow> validateProperties rt obj ps paramName) of
                   Inl e \<Rightarrow> Inl e
                 | Inr u \<Rightarrow>
                     Inl (UnexpectedProperties paramName (unexpected_properties props obj))))"
proof -
  note extras = unexpected_properties_nonempty [OF assms(3)]
  show ?thesis
    using assms(1,2) extras
    by (simp add: Let_def cong del: option.case_cong_weak sum.case_cong_weak)
qed

lemmas ev_validate = example_runtime_def literal_prefix_test_def is_alnum_def
  empty_schema_fields_def typed_schema_def validateString_def validateNumber_def
  array_constraints_def unexpected_properties_def isInteger_def property_def
  inherited_names_def inherited_value_def

text \<open>
  Claim C8, as the code has it. On a schema of type \<open>string\<close> with a non-empty pattern, a
  string that the pattern does not match is rejected. The error is
  \<open>Parameter "NAME" does not match pattern: PATTERN\<close> when the schema has no \<open>enum\<close> or the
  string is one of its values; a string outside the \<open>enum\<close> is rejected by the \<open>enum\<close> check,
  which comes first, with the error that names the parameter and the allowed values.
  On a schema of type \<open>object\<close> with \<open>additionalProperties === false\<close>, an object with a key
  that is not a key of \<open>properties\<close> is rejected; when its required properties are present
  and its declared properties are valid, the error names the parameter and the unexpected
  keys.
\<close>

theorem validate_pattern_and_additional_properties:
  "(schema_type f = Some ''string'' \<and> pattern f = Some pat \<and> pat \<noteq> [] \<and>
    regexTest rt pat s = Some False \<longrightarrow>
      (\<exists>e. validate rt (Some (JStr s)) (SchemaObject f items props addl) paramName = Inl e) \<and>
      (schema_enum f = None \<or> (\<exists>vs. schema_enum f = Some vs \<and> JStr s \<in> set vs) \<longrightarrow>
         validate rt (Some (JStr s)) (SchemaObject f items props addl) paramName =
           Inl (PatternMismatch paramName pat)) \<and>
      (\<forall>vs. schema_enum f = Some vs \<and> JStr s \<notin> set vs \<longrightarrow>
         validate rt (Some (JStr s)) (SchemaObject f items props addl) paramName =
           Inl (MustBeOneOf paramName vs))) \<and>
   validation_message rt (PatternMismatch paramName pat) =
     Some (''Parameter \"'' @ paramName @ ''\" does not match pattern: '' @ pat) \<and>
   (schema_type f = Some ''object'' \<and> addl = Some (Inl False) \<and>
    (\<exists>k \<in> fst ` set obj. k \<notin> fst ` set (case props of None \<Rightarrow> [] | Some ps \<Rightarrow> ps)) \<longrightarrow>
      (\<exists>e. validate rt (Some (JObj obj)) (SchemaObject f items props addl) paramName = Inl e) \<and>
      ((case schema_required f of None \<Rightarrow> None | Some qs \<Rightarrow> missing_required qs obj) = None \<and>
       (case props of None \<Rightarrow> Inr () | Some ps \<Rightarrow> validateProperties rt obj ps paramName) = Inr () \<longrightarrow>
         validate rt (Some (JObj obj)) (SchemaObject f items props addl) paramName =
           Inl (UnexpectedProperties paramName
                  (filter (\<lambda>key. key \<notin> fst ` set (case props of None \<Rightarrow> [] | Some ps \<Rightarrow> ps))
                     (map fst obj)))))"
proof (intro conjI impI allI)
  assume a: "schema_type f = Some ''string'' \<and> pattern f = Some pat \<and> pat \<noteq> [] \<and>
    regexTest rt pat s = Some False"
  then have vs: "validate rt (Some (JStr s)) (SchemaObject f items props addl) paramName =
     validateString rt s f paramName"
    by (simp add: validate_string_schema)
  show "\<exists>e. validate rt (Some (JStr s)) (SchemaObject f items props addl) paramName = Inl e"
  proof (cases "schema_enum f = None \<or> (\<exists>vs. schema_enum f = Some vs \<and> JStr s \<in> set vs)")
    case True
    then show ?thesis using a vs validateString_pattern [of f s pat rt paramName] by simp
  next
    case False
    then obtain vs where "schema_enum f = Some vs" "JStr s \<notin> set vs" by auto
    then show ?thesis using vs validateString_enum [of f vs s rt paramName] by simp
  qed
  {
    assume "schema_enum f = None \<or> (\<exists>vs. schema_enum f = Some vs \<and> JStr s \<in> set vs)"
    then show "validate rt (Some (JStr s)) (SchemaObject f items props addl) paramName =
           Inl (PatternMismatch paramName pat)"
      using a vs validateString_pattern [of f s pat rt paramName] by simp
  }
  {
    fix vs assume "schema_enum f = Some vs \<and> JStr s \<notin> set vs"
    then show "validate rt (Some (JStr s)) (SchemaObject f items props addl) paramName =
           Inl (MustBeOneOf paramName vs)"
      using vs validateString_enum [of f vs s rt paramName] by simp
  }
next
  show "validation_message rt (PatternMismatch paramName pat) =
     Some (''Parameter \"'' @ paramName @ ''\" does not match pattern: '' @ pat)"
    by simp
next
  assume a: "schema_type f = Some ''object'' \<and> addl = Some (Inl False) \<and>
    (\<exists>k \<in> fst ` set obj. k \<notin> fst ` set (case props of None \<Rightarrow> [] | Some ps \<Rightarrow> ps))"
  then have vo: "validate rt (Some (JObj obj)) (SchemaObject f items props addl) paramName =
           (case (case schema_required f of None \<Rightarrow> None | Some qs \<Rightarrow> missing_required qs obj) of
              Some q \<Rightarrow> Inl (PropertyRequired q paramName)
            | None \<Rightarrow>
                (case (case props of None \<Rightarrow> Inr () | Some ps \<Rightarrow> validateProperties rt obj ps paramName) of
                   Inl e \<Rightarrow> Inl e
                 | Inr u \<Rightarrow>
                     Inl (UnexpectedProperties paramName (unexpected_properties props obj))))"
    by (intro validate_object_schema) simp_all
  show "\<exists>e. validate rt (Some (JObj obj)) (SchemaObject f items props addl) paramName = Inl e"
    unfolding vo by (simp split: option.splits sum.splits)
  {
    assume "(case schema_required f of None \<Rightarrow> None | Some qs \<Rightarrow> missing_required qs obj) = None \<and>
       (case props of None \<Rightarrow> Inr () | Some ps \<Rightarrow> validateProperties rt obj ps paramName) = Inr ()"
    then show "validate rt (Some (JObj obj)) (SchemaObject f items props addl) paramName =
           Inl (UnexpectedProperties paramName
                  (filter (\<lambda>key. key \<notin> fst ` set (case props of None \<Rightarrow> [] | Some ps \<Rightarrow> ps))
                     (map fst obj)))"
      unfolding vo by (simp add: unexpected_properties_def)
  }
qed

theorem validate_pattern_and_additional_properties_witness:
  "validate example_runtime (Some (JStr ''c''))
     (SchemaObject (empty_schema_fields\<lparr>schema_type := Some ''string'', pattern := Some ''^b''\<rparr>)
        None None None) ''name'' = Inl (PatternMismatch ''name'' ''^b'') \<and>
   validation_message example_runtime (PatternMismatch ''name'' ''^b'') =
     Some ''Parameter \"name\" does not match pattern: ^b'' \<and>
   validate example_runtime (Some (JObj [(''id'', JNum 1), (''extra'', JBool True)]))
     (SchemaObject (empty_schema_fields\<lparr>schema_type := Some ''object''\<rparr>) None
        (Some [(''id'', typed_schema ''integer'')]) (Some (Inl False))) ''body'' =
     Inl (UnexpectedProperties ''body'' [''extra''])"
  using validate_pattern_and_additional_properties
          [where f = "empty_schema_fields\<lparr>schema_type := Some ''string'', pattern := Some ''^b''\<rparr>"
             and pat = "''^b''" and rt = example_runtime and s = "''c''" and items = None
             and props = None and addl = None and paramName = "''name''" and obj = "[]"]
        validate_pattern_and_additional_properties
          [where f = "empty_schema_fields\<lparr>schema_type := Some ''object''\<rparr>"
             and pat = "''^b''" and rt = example_runtime and s = "''c''" and items = None
             and props = "Some [(''id'', typed_schema ''integer'')]" and addl = "Some (Inl False)"
             and paramName = "''body''" and obj = "[(''id'', JNum 1), (''extra'', JBool True)]"]
  by (simp add: ev_validate)

text \<open>
  Against C8 as stated: the string \<open>c\<close> violates the pattern \<open>^b\<close>, and on a string
  schema that also has the \<open>enum\<close> \<open>[a]\<close> the error names the parameter and the allowed
  values, not the pattern; on a schema with the pattern and no \<open>type\<close> the string is not
  rejected at all.
\<close>

theorem enum_checked_before_pattern_counterexample:
  "regexTest example_runtime ''^b'' ''c'' = Some False \<and>
   validate example_runtime (Some (JStr ''c''))
     (SchemaObject (empty_schema_fields\<lparr>schema_type := Some ''string'',
                                         schema_enum := Some [JStr ''a''],
                                         pattern := Some ''^b''\<rparr>) None None None) ''name'' =
     Inl (MustBeOneOf ''name'' [JStr ''a'']) \<and>
   validation_message example_runtime (MustBeOneOf ''name'' [JStr ''a'']) =
     Some ''Parameter \"name\" must be one of: a'' \<and>
   validate example_runtime (Some (JStr ''c''))
     (SchemaObject (empty_schema_fields\<lparr>pattern := Some ''^b''\<rparr>) None None None) ''name'' =
     Inr ()"
  by (simp add: ev_validate)

end
